theory Spec2Isabelle
  imports Main
begin

section \<open>Errors and observables\<close>

text \<open>
  The error classes the two services raise: \<open>InvalidRequestError\<close> and
  \<open>InvalidArchiveError\<close> of the archive module, JavaScript's own \<open>Error\<close> and
  \<open>TypeError\<close> (whose message the engine chooses), and \<open>Rejected\<close> for whatever a
  collaborator (file service, zip service, database, delegate) fails with.
\<close>

datatype error =
    InvalidRequestError string
  | InvalidArchiveError string
  | Error string
  | TypeError
  | Rejected string

text \<open>
  An RxJS observable, once subscribed, acts on the state, emits values in order and ends
  by completing (\<open>None\<close>) or with an error. Operators catch what their callbacks throw
  and pass it on as the error of the stream, so a callback that may throw returns a sum.
\<close>

type_synonym ('s, 'a) observable = "'s \<Rightarrow> ('a list \<times> error option) \<times> 's"

definition throwError :: "error \<Rightarrow> ('s, 'a) observable" where
  "throwError e = (\<lambda>s. (([], Some e), s))"

definition of_obs :: "'a \<Rightarrow> ('s, 'a) observable" where
  "of_obs x = (\<lambda>s. (([x], None), s))"

text \<open>\<open>from(promise)\<close>: the promise either resolves with a value or rejects.\<close>

definition from_promise :: "error + 'a \<Rightarrow> ('s, 'a) observable" where
  "from_promise p = (\<lambda>s. (case p of Inl e \<Rightarrow> (([], Some e), s) | Inr v \<Rightarrow> (([v], None), s)))"

text \<open>\<open>defer(factory)\<close>: the factory runs at subscription; what it throws is the error.\<close>

definition defer_obs :: "('s \<Rightarrow> (error + ('s, 'a) observable) \<times> 's) \<Rightarrow> ('s, 'a) observable" where
  "defer_obs factory =
     (\<lambda>s. case factory s of (Inl e, s') \<Rightarrow> (([], Some e), s') | (Inr ob, s') \<Rightarrow> ob s')"

fun concat_obs :: "('s, 'a) observable list \<Rightarrow> ('s, 'a) observable" where
  "concat_obs [] = (\<lambda>s. (([], None), s))"
| "concat_obs (ob # obs) =
     (\<lambda>s. case ob s of
        ((xs, Some e), s') \<Rightarrow> ((xs, Some e), s')
      | ((xs, None), s') \<Rightarrow> (case concat_obs obs s' of ((ys, r), s'') \<Rightarrow> ((xs @ ys, r), s'')))"

fun map_list :: "('a \<Rightarrow> 's \<Rightarrow> (error + 'b) \<times> 's) \<Rightarrow> 'a list \<Rightarrow> 's \<Rightarrow> ('b list \<times> error option) \<times> 's" where
  "map_list f [] s = (([], None), s)"
| "map_list f (x # xs) s =
     (case f x s of
        (Inl e, s') \<Rightarrow> (([], Some e), s')
      | (Inr y, s') \<Rightarrow> (case map_list f xs s' of ((ys, r), s'') \<Rightarrow> ((y # ys, r), s'')))"

text \<open>\<open>map(project)\<close>, with a projection that may change the state or throw.\<close>

definition map_obs :: "('a \<Rightarrow> 's \<Rightarrow> (error + 'b) \<times> 's) \<Rightarrow> ('s, 'a) observable \<Rightarrow> ('s, 'b) observable" where
  "map_obs f source =
     (\<lambda>s. case source s of ((xs, r), s') \<Rightarrow>
        (case map_list f xs s' of
           ((ys, Some e), s'') \<Rightarrow> ((ys, Some e), s'')
         | ((ys, None), s'') \<Rightarrow> ((ys, r), s'')))"

definition mapTo :: "'b \<Rightarrow> ('s, 'a) observable \<Rightarrow> ('s, 'b) observable" where
  "mapTo v = map_obs (\<lambda>_ s. (Inr v, s))"

definition tap_obs :: "('a \<Rightarrow> 's \<Rightarrow> 's) \<Rightarrow> ('s, 'a) observable \<Rightarrow> ('s, 'a) observable" where
  "tap_obs f = map_obs (\<lambda>x s. (Inr x, f x s))"

fun concatMap_list ::
  "('a \<Rightarrow> 's \<Rightarrow> (error + ('s, 'b) observable) \<times> 's) \<Rightarrow> 'a list \<Rightarrow> 's \<Rightarrow> ('b list \<times> error option) \<times> 's" where
  "concatMap_list project [] s = (([], None), s)"
| "concatMap_list project (x # xs) s =
     (case project x s of
        (Inl e, s') \<Rightarrow> (([], Some e), s')
      | (Inr inner, s') \<Rightarrow>
          (case inner s' of
             ((ys, Some e), s'') \<Rightarrow> ((ys, Some e), s'')
           | ((ys, None), s'') \<Rightarrow>
               (case concatMap_list project xs s'' of ((zs, r), s3) \<Rightarrow> ((ys @ zs, r), s3))))"

text \<open>
  \<open>concatMap(project)\<close>: each value of the source is projected to an inner observable,
  subscribed in turn. \<open>mergeMap\<close> is the same operator on a source that emits once.
\<close>

definition concatMap ::
  "('a \<Rightarrow> 's \<Rightarrow> (error + ('s, 'b) observable) \<times> 's) \<Rightarrow> ('s, 'a) observable \<Rightarrow> ('s, 'b) observable" where
  "concatMap project source =
     (\<lambda>s. case source s of ((xs, r), s') \<Rightarrow>
        (case concatMap_list project xs s' of
           ((ys, Some e), s'') \<Rightarrow> ((ys, Some e), s'')
         | ((ys, None), s'') \<Rightarrow> ((ys, r), s'')))"

definition mergeMap ::
  "('a \<Rightarrow> 's \<Rightarrow> (error + ('s, 'b) observable) \<times> 's) \<Rightarrow> ('s, 'a) observable \<Rightarrow> ('s, 'b) observable" where
  "mergeMap = concatMap"

definition catchError :: "(error \<Rightarrow> ('s, 'a) observable) \<Rightarrow> ('s, 'a) observable \<Rightarrow> ('s, 'a) observable" where
  "catchError selector source =
     (\<lambda>s. case source s of
        ((xs, None), s') \<Rightarrow> ((xs, None), s')
      | ((xs, Some e), s') \<Rightarrow> (case selector e s' of ((ys, r), s'') \<Rightarrow> ((xs @ ys, r), s'')))"

fun first_error :: "(error + 'a) list \<Rightarrow> error option" where
  "first_error [] = None"
| "first_error (Inl e # ps) = Some e"
| "first_error (Inr v # ps) = first_error ps"

fun values_of :: "(error + 'a) list \<Rightarrow> 'a list" where
  "values_of [] = []"
| "values_of (Inl e # ps) = values_of ps"
| "values_of (Inr v # ps) = v # values_of ps"

text \<open>
  \<open>zip\<close> over sources that each emit one value and complete, or fail: the array of the
  values once every source has emitted, the error as soon as one fails.
\<close>

definition zip_obs :: "(error + 'a) list \<Rightarrow> ('s, 'a list) observable" where
  "zip_obs sources =
     (\<lambda>s. case first_error sources of
        Some e \<Rightarrow> (([], Some e), s)
      | None \<Rightarrow> (([values_of sources], None), s))"

section \<open>DeleteProfileDataHandler\<close>

text \<open>
  The schema entries and their column constants live in the schema files, outside this
  handler; a table is named by its entry and a column by its constant.
\<close>

datatype entry =
    ProfileEntry | ContentMarkerEntry | ContentAccessEntry | LearnerAssessmentsEntry
  | LearnerSummaryEntry | ContentFeedbackEntry | SearchHistoryEntry | GroupProfileEntry
  | UserEntry | PlayerConfigEntry | KeyValueStoreEntry

datatype column = COLUMN_NAME_UID | COLUMN_NAME_USER_ID | COLUMN_NAME_KEY

text \<open>\<open>selection\<close> is the template \<open>`${column} = ?`\<close>, kept as the column it names.\<close>

record DeleteQuery =
  table :: entry
  selection :: "entry \<times> column"
  selectionArgs :: "string list"

text \<open>The raw statement \<open>DELETE FROM table WHERE column LIKE pattern\<close>.\<close>

datatype statement = DELETE_FROM_WHERE_LIKE entry "entry \<times> column" string

datatype db_event =
    BeginTransaction
  | Delete DeleteQuery
  | Execute statement
  | EndTransaction bool

text \<open>
  \<open>DbService\<close>: \<open>delete\<close> and \<open>execute\<close> return an observable that emits once or
  fails; \<open>beginTransaction\<close> and \<open>endTransaction\<close> are calls that return. The state
  of the handler is the list of calls made on the service so far.
\<close>

record DbService =
  delete_result :: "DeleteQuery \<Rightarrow> error + unit"
  execute_result :: "statement \<Rightarrow> error + unit"

definition uid_query :: "entry \<Rightarrow> column \<Rightarrow> string \<Rightarrow> DeleteQuery" where
  "uid_query e c uid = \<lparr>table = e, selection = (e, c), selectionArgs = [uid]\<rparr>"

definition delete_queries :: "string \<Rightarrow> DeleteQuery list" where
  "delete_queries uid =
     [uid_query ProfileEntry COLUMN_NAME_UID uid,
      uid_query ContentMarkerEntry COLUMN_NAME_UID uid,
      uid_query ContentAccessEntry COLUMN_NAME_UID uid,
      uid_query LearnerAssessmentsEntry COLUMN_NAME_UID uid,
      uid_query LearnerSummaryEntry COLUMN_NAME_UID uid,
      uid_query ContentFeedbackEntry COLUMN_NAME_UID uid,
      uid_query SearchHistoryEntry COLUMN_NAME_USER_ID uid,
      uid_query GroupProfileEntry COLUMN_NAME_UID uid,
      uid_query UserEntry COLUMN_NAME_UID uid,
      uid_query PlayerConfigEntry COLUMN_NAME_USER_ID uid]"

definition key_value_statement :: "string \<Rightarrow> statement" where
  "key_value_statement uid =
     DELETE_FROM_WHERE_LIKE KeyValueStoreEntry (KeyValueStoreEntry, COLUMN_NAME_KEY)
       (''%%'' @ uid @ ''%%'')"

text \<open>
  The eleven calls are the arguments of \<open>zip\<close>, so all of them are made, in this
  order, before \<open>zip\<close> subscribes to what they returned.
\<close>

definition outcomes :: "DbService \<Rightarrow> string \<Rightarrow> (error + unit) list" where
  "outcomes db uid =
     map (delete_result db) (delete_queries uid) @ [execute_result db (key_value_statement uid)]"

definition delete_all :: "DbService \<Rightarrow> string \<Rightarrow> db_event list \<Rightarrow> (error + (db_event list, bool) observable) \<times> db_event list" where
  "delete_all db uid s =
     (Inr (mapTo True (zip_obs (outcomes db uid))),
      s @ map Delete (delete_queries uid) @ [Execute (key_value_statement uid)])"

definition delete :: "DbService \<Rightarrow> string \<Rightarrow> (db_event list, bool) observable" where
  "delete db uid =
     catchError (\<lambda>e s. of_obs False (s @ [EndTransaction False]))
       (tap_obs (\<lambda>_ s. s @ [EndTransaction True])
          (mergeMap (\<lambda>_. delete_all db uid)
             (defer_obs (\<lambda>s. (Inr (of_obs ()), s @ [BeginTransaction])))))"

section \<open>Archive data\<close>

datatype ArchiveObjectType = CONTENT | PROFILE | TELEMETRY

datatype ContentEncoding = identity | gzip

text \<open>
  What \<open>JSON.parse\<close> returns: \<open>null\<close>, a string, number or boolean, an array, or an
  object with its properties. The code reads it without any check of its shape.
\<close>

datatype primitive = PString string | PNumber int | PBool bool

datatype json = JNull | JPrimitive primitive | JArray "json list" | JObject "(string \<times> json) list"

text \<open>
  An item of the manifest as \<open>export\<close> writes it: the package metadata that the
  delegate reported as completed. The fields \<open>file\<close> and \<open>size\<close> are
  \<open>file_f\<close> and \<open>size_f\<close> here.
\<close>

record ArchiveItem =
  objectType :: ArchiveObjectType
  file_f :: string
  contentEncoding :: ContentEncoding
  size_f :: nat
  explodedSize :: nat

type_synonym ProducerData = string

record TelemetryContext =
  pdata :: ProducerData

record Archive =
  count :: nat
  items :: "ArchiveItem list"

text \<open>\<open>ArchiveManifest\<close>; its field \<open>id\<close> is \<open>id_f\<close> here.\<close>

record ArchiveManifest =
  id_f :: string
  ver :: string
  ts :: string
  producer :: ProducerData
  archive :: Archive

definition ARCHIVE_ID :: string where
  "ARCHIVE_ID = ''sunbird.data.archive''"

definition ARCHIVE_VERSION :: string where
  "ARCHIVE_VERSION = ''1.0''"

record ArchiveObjectExportProgress =
  task_e :: string
  completed :: "ArchiveItem list"

text \<open>The pending items of an import are the items as parsed from the manifest file.\<close>

record ArchiveObjectImportProgress =
  task_i :: string
  pending :: "json list"

text \<open>
  A JavaScript \<open>Map\<close> keeps its keys in insertion order; \<open>set\<close> on a key that is
  present replaces the value where it stands, on a new key it appends.
\<close>

type_synonym ('k, 'v) js_map = "('k \<times> 'v) list"

fun map_set :: "'k \<Rightarrow> 'v \<Rightarrow> ('k, 'v) js_map \<Rightarrow> ('k, 'v) js_map" where
  "map_set k v [] = [(k, v)]"
| "map_set k v ((k', v') # m) = (if k = k' then (k, v) # m else (k', v') # map_set k v m)"

definition map_get :: "('k, 'v) js_map \<Rightarrow> 'k \<Rightarrow> 'v option" where
  "map_get m k = map_of m k"

text \<open>
  \<open>ArchiveExportProgress\<close> and \<open>ArchiveImportProgress\<close>: a task, the per-type
  progress and an optional file path. Export never changes a \<open>Map\<close> after building it,
  so its snapshots hold the \<open>Map\<close> itself. Import shares one \<open>Map\<close> between
  snapshots and changes it in place, so its snapshots hold the address of a \<open>Map\<close>
  in the heap.
\<close>

record 'm ArchiveProgress =
  task :: string
  progress :: 'm
  filePath :: "string option"

type_synonym ArchiveExportProgress =
  "(ArchiveObjectType, ArchiveObjectExportProgress) js_map ArchiveProgress"

type_synonym ArchiveImportProgress = "nat ArchiveProgress"

record ArchiveObject =
  type_f :: ArchiveObjectType

text \<open>\<open>ArchiveExportRequest\<close> and \<open>ArchiveImportRequest\<close> have the same fields.\<close>

record ArchiveRequest =
  objects :: "ArchiveObject list"
  filePath_r :: string

section \<open>Collaborators of the archive service\<close>

text \<open>
  The calls the service makes on its collaborators, in the order it makes them.
  \<open>TelemetryExport\<close> and \<open>TelemetryImport\<close> are the calls of the delegates' \<open>export\<close>
  and \<open>import\<close> methods, which return the delegate's stream; \<open>Subscribe\<close> is
  \<open>combineLatest\<close> subscribing to the stream of a source.
\<close>

datatype event =
    CreateDir string
  | Unzip "string option" string
  | ReadAsText string string
  | BuildContext
  | WriteFile string string string
  | Zip string string
  | TelemetryExport string string
  | TelemetryImport string string "json list"
  | Subscribe ArchiveObjectType

text \<open>
  What the world outside the service answers: the cache directory, the generated
  identifier, the time (as \<open>toISOString\<close> gives it) when the manifest is built and when
  the zip file is named, the outcome of each file, zip and telemetry call, \<open>JSON.stringify\<close>
  and \<open>JSON.parse\<close> (\<open>None\<close> where it throws), the values of the members of the enum
  \<open>ArchiveObjectType\<close>, and the delegates. The delegate streams of one call run
  concurrently: \<open>export_notifications\<close> and \<open>import_notifications\<close> list what they
  emit in the order of arrival, each value with the index of the stream it comes from, and
  \<open>export_error\<close>, \<open>import_error\<close> say whether a stream then fails.
\<close>

record env =
  externalCacheDirectory :: string
  generateUniqueId :: string
  manifest_time :: string
  zip_time :: string
  createDir_result :: "error + unit"
  unzip_result :: "error + unit"
  zip_result :: "error + unit"
  readAsText_result :: "error + string"
  writeFile_result :: "error + unit"
  buildContext_result :: "error + TelemetryContext"
  JSON_stringify :: "ArchiveManifest \<Rightarrow> string"
  JSON_parse :: "string \<Rightarrow> json option"
  type_value :: "ArchiveObjectType \<Rightarrow> primitive"
  export_notifications :: "(nat \<times> ArchiveObjectExportProgress) list"
  export_error :: "error option"
  import_notifications :: "(nat \<times> ArchiveObjectImportProgress) list"
  import_error :: "error option"

text \<open>
  The state of one call: the collaborator calls so far, the variable \<open>lastResult\<close>
  that the stages share (\<open>None\<close> while it holds no value) and the heap of \<open>Map\<close>
  objects.
\<close>

record ('r, 'm) state =
  trace :: "event list"
  lastResult :: "'r option"
  heap :: "'m list"

definition workspace :: "env \<Rightarrow> string" where
  "workspace env = externalCacheDirectory env @ generateUniqueId env"

definition zipFile :: "env \<Rightarrow> string" where
  "zipFile env = externalCacheDirectory env @ ''archive-'' @ zip_time env @ ''.zip''"

definition init :: "('r, 'm) state" where
  "init = \<lparr>trace = [], lastResult = None, heap = []\<rparr>"

definition call :: "event \<Rightarrow> ('r, 'm) state \<Rightarrow> ('r, 'm) state" where
  "call ev s = s\<lparr>trace := trace s @ [ev]\<rparr>"

section \<open>combineLatest over the delegate streams\<close>

text \<open>
  A source of the work list is a delegate stream whose values are mapped to
  \<open>{type, progress}\<close>: its type and the event of subscribing to it.
\<close>

type_synonym source = "ArchiveObjectType \<times> event"

text \<open>
  \<open>combineLatest\<close> keeps the latest value of every source and, once each source has
  emitted, emits the array of the latest values at every arrival.
\<close>

fun combineLatest_emissions ::
  "source list \<Rightarrow> (ArchiveObjectType \<times> 'p) option list \<Rightarrow> (nat \<times> 'p) list \<Rightarrow> (ArchiveObjectType \<times> 'p) list list" where
  "combineLatest_emissions sources latest [] = []"
| "combineLatest_emissions sources latest ((i, v) # ns) =
     (if i < length sources then
        (let latest' = latest[i := Some (fst (sources ! i), v)] in
         (case those latest' of None \<Rightarrow> [] | Some values \<Rightarrow> [values])
         @ combineLatest_emissions sources latest' ns)
      else combineLatest_emissions sources latest ns)"

definition combineLatest ::
  "source list \<Rightarrow> (nat \<times> 'p) list \<Rightarrow> error option \<Rightarrow> (('r, 'm) state, (ArchiveObjectType \<times> 'p) list) observable" where
  "combineLatest sources notifications err =
     (\<lambda>s. ((combineLatest_emissions sources (map (\<lambda>_. None) sources) notifications, err),
           s\<lparr>trace := trace s @ map snd sources\<rparr>))"

section \<open>ArchiveServiceImpl: export\<close>

type_synonym estate = "(ArchiveExportProgress, unit) state"

definition reduceObjectProgressToArchiveObjectExportProgress ::
  "(ArchiveObjectType \<times> ArchiveObjectExportProgress) list \<Rightarrow> (ArchiveObjectType, ArchiveObjectExportProgress) js_map" where
  "reduceObjectProgressToArchiveObjectExportProgress results =
     foldl (\<lambda>acc (type, progress). map_set type progress acc) [] results"

text \<open>
  \<open>exportRequest.objects.map\<close> with its callback, object after object: for a telemetry
  object it calls the delegate's \<open>export\<close> there and then, and keeps the stream it
  returns; at the first object without a delegate it throws, so the array of sources is
  never finished and \<open>combineLatest\<close> is not reached.
\<close>

fun export_work_list ::
  "ArchiveRequest \<Rightarrow> string \<Rightarrow> ArchiveObject list \<Rightarrow> ('r, 'm) state \<Rightarrow> (error + source list) \<times> ('r, 'm) state" where
  "export_work_list exportRequest workspacePath [] s = (Inr [], s)"
| "export_work_list exportRequest workspacePath (object # rest) s =
     (case type_f object of
        CONTENT \<Rightarrow> (Inl (Error ''To be implemented''), s)
      | PROFILE \<Rightarrow> (Inl (Error ''To be implemented''), s)
      | TELEMETRY \<Rightarrow>
          (case export_work_list exportRequest workspacePath rest
                  (call (TelemetryExport (filePath_r exportRequest) workspacePath) s) of
             (Inl e, s') \<Rightarrow> (Inl e, s')
           | (Inr sources, s') \<Rightarrow> (Inr ((TELEMETRY, Subscribe TELEMETRY) # sources), s')))"

definition flattenedItems ::
  "(ArchiveObjectType, ArchiveObjectExportProgress) js_map \<Rightarrow> ArchiveItem list" where
  "flattenedItems entries =
     foldl (\<lambda>acc (objectType, objectProgress). acc @ completed objectProgress) [] entries"

text \<open>The object that \<open>generateManifestFile\<close> serialises.\<close>

definition manifest ::
  "env \<Rightarrow> ProducerData \<Rightarrow> (ArchiveObjectType, ArchiveObjectExportProgress) js_map \<Rightarrow> ArchiveManifest" where
  "manifest env producerData entries =
     \<lparr>id_f = ARCHIVE_ID,
      ver = ARCHIVE_VERSION,
      ts = manifest_time env,
      producer = producerData,
      archive = \<lparr>count = length (flattenedItems entries), items = flattenedItems entries\<rparr>\<rparr>"

definition generateManifestFile ::
  "env \<Rightarrow> ArchiveExportProgress \<Rightarrow> string \<Rightarrow> estate \<Rightarrow> (error + (estate, ArchiveExportProgress) observable) \<times> estate" where
  "generateManifestFile env p workspacePath s =
     (Inr (mapTo \<lparr>task = ''BUILDING_MANIFEST'', progress = progress p, filePath = None\<rparr>
        (concatMap
           (\<lambda>producerData s'.
              (Inr (from_promise (writeFile_result env)),
               call (WriteFile workspacePath ''manifest.json''
                       (JSON_stringify env (manifest env producerData (progress p)))) s'))
           (map_obs (\<lambda>c s'. (Inr (pdata c), s'))
              (from_promise (buildContext_result env))))),
      call BuildContext s)"

definition generateZipArchive ::
  "env \<Rightarrow> ArchiveExportProgress \<Rightarrow> string \<Rightarrow> estate \<Rightarrow> (error + (estate, ArchiveExportProgress) observable) \<times> estate" where
  "generateZipArchive env p workspacePath s =
     (Inr (mapTo (p\<lparr>task := ''COMPLETE'', filePath := Some (zipFile env)\<rparr>)
        (from_promise (zip_result env))),
      call (Zip workspacePath (zipFile env)) s)"

text \<open>
  \<open>export\<close> returns the observable; \<open>fileService.createDir\<close> is an argument of
  \<open>from\<close>, so it is called when \<open>export\<close> is, not at subscription. With
  \<open>lastResult\<close> undefined, destructuring it in \<open>generateManifestFile\<close> throws a
  \<open>TypeError\<close>; the third stage is then never reached (there the spread of
  \<open>undefined\<close> would leave \<open>progress\<close> out).
\<close>

text \<open>The first argument of \<open>concat\<close> in \<open>export\<close>.\<close>

definition export_objects :: "env \<Rightarrow> ArchiveRequest \<Rightarrow> (estate, ArchiveExportProgress) observable" where
  "export_objects env exportRequest =
     tap_obs (\<lambda>results s'. s'\<lparr>lastResult := Some results\<rparr>)
       (map_obs
          (\<lambda>results s'.
             (Inr \<lparr>task = ''BUILDING'',
                   progress = reduceObjectProgressToArchiveObjectExportProgress results,
                   filePath = None\<rparr>, s'))
          (concatMap
             (\<lambda>_ s'.
                (case export_work_list exportRequest (workspace env) (objects exportRequest) s' of
                   (Inl e, s'') \<Rightarrow> (Inl e, s'')
                 | (Inr sources, s'') \<Rightarrow>
                     (Inr (combineLatest sources (export_notifications env) (export_error env)), s'')))
             (from_promise (createDir_result env))))"

definition export :: "env \<Rightarrow> ArchiveRequest \<Rightarrow> estate \<Rightarrow> (estate, ArchiveExportProgress) observable \<times> estate" where
  "export env exportRequest s =
     (if objects exportRequest = [] then
        (throwError (InvalidRequestError ''No archive objects to export''), s\<lparr>lastResult := None\<rparr>)
      else
        (concat_obs
           [export_objects env exportRequest,
            defer_obs
              (\<lambda>s'. case lastResult s' of
                 None \<Rightarrow> (Inl TypeError, s')
               | Some r \<Rightarrow> generateManifestFile env r (workspace env) s'),
            defer_obs
              (\<lambda>s'. case lastResult s' of
                 None \<Rightarrow> generateZipArchive env \<lparr>task = [], progress = [], filePath = None\<rparr> (workspace env) s'
               | Some r \<Rightarrow> generateZipArchive env r (workspace env) s')],
         call (CreateDir (workspace env)) (s\<lparr>lastResult := None\<rparr>)))"

section \<open>ArchiveServiceImpl: import\<close>

type_synonym import_map = "(ArchiveObjectType, ArchiveObjectImportProgress) js_map"

type_synonym istate = "(ArchiveImportProgress, import_map) state"

definition deref :: "istate \<Rightarrow> nat \<Rightarrow> import_map" where
  "deref s r = (if r < length (heap s) then heap s ! r else [])"

text \<open>
  What a subscriber reads in a snapshot when it is delivered: the snapshot and the
  content of its \<open>Map\<close> at that moment.
\<close>

type_synonym seen = "ArchiveImportProgress \<times> import_map"

definition observed :: "(istate, ArchiveImportProgress) observable \<Rightarrow> (istate, seen) observable" where
  "observed = map_obs (\<lambda>x s. (Inr (x, deref s (progress x)), s))"

definition reduceObjectProgressToArchiveObjectImportProgress ::
  "(ArchiveObjectType \<times> ArchiveObjectImportProgress) list \<Rightarrow> import_map" where
  "reduceObjectProgressToArchiveObjectImportProgress results =
     foldl (\<lambda>acc (type, progress). map_set type progress acc) [] results"

definition extractZipArchive ::
  "env \<Rightarrow> ArchiveImportProgress \<Rightarrow> string \<Rightarrow> istate \<Rightarrow> (error + (istate, ArchiveImportProgress) observable) \<times> istate" where
  "extractZipArchive env p workspacePath s =
     (Inr (mapTo (p\<lparr>task := ''EXTRACTING''\<rparr>) (from_promise (unzip_result env))),
      call (Unzip (filePath p) workspacePath) s)"

text \<open>
  Reading one of the properties \<open>archive\<close>, \<open>items\<close>, \<open>objectType\<close> (no prototype
  defines them): on \<open>null\<close> it throws a \<open>TypeError\<close>; on an object it gives the value
  of the property, or \<open>undefined\<close> (\<open>None\<close>) when the object has none; on a string,
  number, boolean or array it gives \<open>undefined\<close>.
\<close>

fun property :: "json \<Rightarrow> string \<Rightarrow> error + json option" where
  "property JNull name = Inl TypeError"
| "property (JObject props) name = Inr (map_of props name)"
| "property (JPrimitive p) name = Inr None"
| "property (JArray xs) name = Inr None"

text \<open>
  \<open>manifest.archive.items\<close>, as the array on which \<open>filter\<close> is called. Reading
  \<open>items\<close> of \<open>undefined\<close> throws, and so does the call of \<open>filter\<close> on anything
  but an array (no other parsed value has a function \<open>filter\<close>).
\<close>

definition manifest_items :: "json \<Rightarrow> error + json list" where
  "manifest_items m =
     (case property m ''archive'' of
        Inl e \<Rightarrow> Inl e
      | Inr None \<Rightarrow> Inl TypeError
      | Inr (Some a) \<Rightarrow>
          (case property a ''items'' of
             Inl e \<Rightarrow> Inl e
           | Inr None \<Rightarrow> Inl TypeError
           | Inr (Some (JArray its)) \<Rightarrow> Inr its
           | Inr (Some other) \<Rightarrow> Inl TypeError))"

text \<open>
  The callback \<open>i.objectType === type\<close>: strict equality with the value of the enum
  member holds for that same string, number or boolean only.
\<close>

definition has_type :: "env \<Rightarrow> ArchiveObjectType \<Rightarrow> json \<Rightarrow> error + bool" where
  "has_type env type i =
     (case property i ''objectType'' of
        Inl e \<Rightarrow> Inl e
      | Inr v \<Rightarrow> Inr (v = Some (JPrimitive (type_value env type))))"

text \<open>\<open>Array.filter\<close> with a callback that may throw.\<close>

fun filter_js :: "('a \<Rightarrow> error + bool) \<Rightarrow> 'a list \<Rightarrow> error + 'a list" where
  "filter_js f [] = Inr []"
| "filter_js f (x # xs) =
     (case f x of
        Inl e \<Rightarrow> Inl e
      | Inr keep \<Rightarrow>
          (case filter_js f xs of
             Inl e \<Rightarrow> Inl e
           | Inr ys \<Rightarrow> Inr (if keep then x # ys else ys)))"

text \<open>
  The loop of \<open>readManifestFile\<close> over the requested types: it sets the entry of each
  type in the shared \<open>Map\<close> at address \<open>r\<close> and throws at the first type without
  items, or where the parsed value has not the shape of a manifest.
\<close>

fun forEach_objectTypes ::
  "env \<Rightarrow> json \<Rightarrow> nat \<Rightarrow> ArchiveObjectType list \<Rightarrow> istate \<Rightarrow> error option \<times> istate" where
  "forEach_objectTypes env m r [] s = (None, s)"
| "forEach_objectTypes env m r (type # types) s =
     (case manifest_items m of
        Inl e \<Rightarrow> (Some e, s)
      | Inr array \<Rightarrow>
          (case filter_js (has_type env type) array of
             Inl e \<Rightarrow> (Some e, s)
           | Inr its \<Rightarrow>
               if its = [] then (Some (InvalidArchiveError ''Nothing to import''), s)
               else forEach_objectTypes env m r types
                      (s\<lparr>heap := (heap s)[r := map_set type \<lparr>task_i = ''INITIALISING'', pending = its\<rparr>
                                                     (deref s r)]\<rparr>)))"

definition readManifestFile ::
  "env \<Rightarrow> ArchiveImportProgress \<Rightarrow> string \<Rightarrow> ArchiveObjectType list \<Rightarrow> istate \<Rightarrow> (error + (istate, ArchiveImportProgress) observable) \<times> istate" where
  "readManifestFile env importProgress workspacePath objectTypes s =
     (Inr (map_obs
        (\<lambda>m s'.
           (case forEach_objectTypes env m (progress importProgress) objectTypes s' of
              (Some e, s'') \<Rightarrow> (Inl e, s'')
            | (None, s'') \<Rightarrow>
                (Inr (importProgress\<lparr>progress := progress importProgress, task := ''VALIDATING''\<rparr>), s'')))
        (map_obs
           (\<lambda>content s'.
              (case JSON_parse env content of
                 None \<Rightarrow> (Inl (InvalidArchiveError ''Invalid manfiest.json''), s')
               | Some m \<Rightarrow> (Inr m, s')))
           (from_promise (readAsText_result env)))),
      call (ReadAsText workspacePath ''manifest.json'') s)"

text \<open>
  \<open>importRequest.objects.map\<close> with its callback. For a telemetry object it reads the
  pending items out of the \<open>Map\<close> that \<open>lastResult\<close> points to at that moment and
  calls the delegate's \<open>import\<close> with them; at the first object without a delegate it
  throws.
\<close>

fun import_work_list ::
  "ArchiveRequest \<Rightarrow> string \<Rightarrow> ArchiveObject list \<Rightarrow> istate \<Rightarrow> (error + source list) \<times> istate" where
  "import_work_list importRequest workspacePath [] s = (Inr [], s)"
| "import_work_list importRequest workspacePath (object # rest) s =
     (case type_f object of
        CONTENT \<Rightarrow> (Inl (Error ''To be implemented''), s)
      | PROFILE \<Rightarrow> (Inl (Error ''To be implemented''), s)
      | TELEMETRY \<Rightarrow>
          (case lastResult s of
             None \<Rightarrow> (Inl TypeError, s)
           | Some r \<Rightarrow>
               (case map_get (deref s (progress r)) TELEMETRY of
                  None \<Rightarrow> (Inl TypeError, s)
                | Some p \<Rightarrow>
                    (case import_work_list importRequest workspacePath rest
                            (call (TelemetryImport (filePath_r importRequest) workspacePath (pending p)) s) of
                       (Inl e, s') \<Rightarrow> (Inl e, s')
                     | (Inr sources, s') \<Rightarrow> (Inr ((TELEMETRY, Subscribe TELEMETRY) # sources), s')))))"

text \<open>The third argument of \<open>concat\<close> in \<open>import\<close>.\<close>

definition import_objects :: "env \<Rightarrow> ArchiveRequest \<Rightarrow> (istate, ArchiveImportProgress) observable" where
  "import_objects env importRequest =
     tap_obs (\<lambda>results s'. s'\<lparr>lastResult := Some results\<rparr>)
       (map_obs
          (\<lambda>results s'.
             (Inr \<lparr>task = ''IMPORTING'', progress = length (heap s'), filePath = None\<rparr>,
              s'\<lparr>heap := heap s' @ [reduceObjectProgressToArchiveObjectImportProgress results]\<rparr>))
          (concatMap
             (\<lambda>_ s'.
                (case import_work_list importRequest (workspace env) (objects importRequest) s' of
                   (Inl e, s'') \<Rightarrow> (Inl e, s'')
                 | (Inr sources, s'') \<Rightarrow>
                     (Inr (combineLatest sources (import_notifications env) (import_error env)), s'')))
             (from_promise (createDir_result env))))"

definition "import" :: "env \<Rightarrow> ArchiveRequest \<Rightarrow> istate \<Rightarrow> (istate, seen) observable \<times> istate" where
  "import env importRequest s =
     (if objects importRequest = [] then
        (throwError (InvalidRequestError ''No archive objects to export''), s)
      else
        (let first = \<lparr>task = [], progress = length (heap s), filePath = Some (filePath_r importRequest)\<rparr>;
             s1 = s\<lparr>heap := heap s @ [[]], lastResult := Some first\<rparr>
         in
         (concat_obs
            [observed (defer_obs
               (\<lambda>s'. case lastResult s' of
                  None \<Rightarrow> (Inl TypeError, s')
                | Some r \<Rightarrow> extractZipArchive env r (workspace env) s')),
             observed (defer_obs
               (\<lambda>s'. case lastResult s' of
                  None \<Rightarrow> (Inl TypeError, s')
                | Some r \<Rightarrow>
                    readManifestFile env r (workspace env) (map type_f (objects importRequest)) s')),
             observed (import_objects env importRequest),
             observed (of_obs (first\<lparr>task := ''COMPLETE''\<rparr>))],
          call (CreateDir (workspace env)) s1)))"

section \<open>Running a call\<close>

text \<open>Calling the service and subscribing to what it returns, from the empty state.\<close>

definition subscribe :: "('s, 'a) observable \<times> 's \<Rightarrow> ('a list \<times> error option) \<times> 's" where
  "subscribe c = (fst c) (snd c)"

definition run_export :: "env \<Rightarrow> ArchiveRequest \<Rightarrow> (ArchiveExportProgress list \<times> error option) \<times> estate" where
  "run_export env exportRequest = subscribe (export env exportRequest init)"

definition run_import :: "env \<Rightarrow> ArchiveRequest \<Rightarrow> (seen list \<times> error option) \<times> istate" where
  "run_import env importRequest = subscribe (import env importRequest init)"

definition emitted :: "('a list \<times> error option) \<times> 's \<Rightarrow> 'a list" where
  "emitted r = fst (fst r)"

definition failure :: "('a list \<times> error option) \<times> 's \<Rightarrow> error option" where
  "failure r = snd (fst r)"

definition calls :: "('a list \<times> error option) \<times> ('r, 'm) state \<Rightarrow> event list" where
  "calls r = trace (snd r)"

section \<open>The runs, stage by stage\<close>

text \<open>
  The sources of a request whose objects all have a delegate, and the calls of the
  delegates that building the work list makes: one for each telemetry object before the
  first object without a delegate.
\<close>

definition sources_of :: "ArchiveRequest \<Rightarrow> source list" where
  "sources_of req = map (\<lambda>_. (TELEMETRY, Subscribe TELEMETRY)) (objects req)"

definition export_calls :: "env \<Rightarrow> ArchiveRequest \<Rightarrow> event list" where
  "export_calls env req =
     map (\<lambda>_. TelemetryExport (filePath_r req) (workspace env))
       (takeWhile (\<lambda>object. type_f object = TELEMETRY) (objects req))"

text \<open>
  The snapshots the first stage of \<open>export\<close> emits, one for each array that
  \<open>combineLatest\<close> emits.
\<close>

definition building :: "env \<Rightarrow> ArchiveRequest \<Rightarrow> ArchiveExportProgress list" where
  "building env req =
     map (\<lambda>results. \<lparr>task = ''BUILDING'',
                      progress = reduceObjectProgressToArchiveObjectExportProgress results,
                      filePath = None\<rparr>)
       (combineLatest_emissions (sources_of req) (map (\<lambda>_. None) (sources_of req))
          (export_notifications env))"

text \<open>
  The states of \<open>export\<close>: when it returns, after the work list is built (or thrown),
  and after the first stage.
\<close>

definition started :: "env \<Rightarrow> estate" where
  "started env = \<lparr>trace = [CreateDir (workspace env)], lastResult = None, heap = []\<rparr>"

definition dispatched :: "env \<Rightarrow> ArchiveRequest \<Rightarrow> estate" where
  "dispatched env req =
     \<lparr>trace = CreateDir (workspace env) # export_calls env req, lastResult = None, heap = []\<rparr>"

definition built :: "env \<Rightarrow> ArchiveRequest \<Rightarrow> estate" where
  "built env req =
     \<lparr>trace = CreateDir (workspace env) # export_calls env req @ map snd (sources_of req),
      lastResult = (if building env req = [] then None else Some (last (building env req))),
      heap = []\<rparr>"

text \<open>
  The items that the loop of \<open>readManifestFile\<close> can filter: \<open>manifest.archive.items\<close>
  is an array and none of its elements is \<open>null\<close>.
\<close>

definition readable :: "json \<Rightarrow> json list option" where
  "readable m =
     (case manifest_items m of
        Inl e \<Rightarrow> None
      | Inr its \<Rightarrow> if JNull \<in> set its then None else Some its)"

text \<open>Whether the callback of the filter keeps an item, where it does not throw.\<close>

definition matches :: "env \<Rightarrow> ArchiveObjectType \<Rightarrow> json \<Rightarrow> bool" where
  "matches env type i = (has_type env type i = Inr True)"

text \<open>The entry that \<open>readManifestFile\<close> sets for a type.\<close>

definition entry :: "env \<Rightarrow> json list \<Rightarrow> ArchiveObjectType \<Rightarrow> ArchiveObjectImportProgress" where
  "entry env its t = \<lparr>task_i = ''INITIALISING'', pending = filter (matches env t) its\<rparr>"

text \<open>The first value of \<open>lastResult\<close> in \<open>import\<close>, for a call from the empty state.\<close>

definition first_of :: "ArchiveRequest \<Rightarrow> ArchiveImportProgress" where
  "first_of req = \<lparr>task = [], progress = 0, filePath = Some (filePath_r req)\<rparr>"

text \<open>The shared \<open>Map\<close> after \<open>readManifestFile\<close> has set the entry of every requested type.\<close>

definition validated :: "env \<Rightarrow> json list \<Rightarrow> ArchiveObjectType list \<Rightarrow> import_map" where
  "validated env its types = foldl (\<lambda>acc t. map_set t (entry env its t) acc) [] types"

definition import_calls :: "env \<Rightarrow> ArchiveRequest \<Rightarrow> json list \<Rightarrow> event list" where
  "import_calls env req its =
     map (\<lambda>_. TelemetryImport (filePath_r req) (workspace env) (filter (matches env TELEMETRY) its))
       (takeWhile (\<lambda>object. type_f object = TELEMETRY) (objects req))"

text \<open>The arrays that \<open>combineLatest\<close> emits in \<open>import\<close>.\<close>

definition import_emissions :: "env \<Rightarrow> ArchiveRequest \<Rightarrow> (ArchiveObjectType \<times> ArchiveObjectImportProgress) list list" where
  "import_emissions env req =
     combineLatest_emissions (sources_of req) (map (\<lambda>_. None) (sources_of req)) (import_notifications env)"

text \<open>
  What is seen of the third stage of \<open>import\<close>: each snapshot holds a new \<open>Map\<close>, at the
  next free address.
\<close>

definition importing :: "env \<Rightarrow> ArchiveRequest \<Rightarrow> seen list" where
  "importing env req =
     map (\<lambda>a. (\<lparr>task = ''IMPORTING'', progress = a, filePath = None\<rparr>,
                reduceObjectProgressToArchiveObjectImportProgress (import_emissions env req ! (a - 1))))
       [1 ..< 1 + length (import_emissions env req)]"

text \<open>
  The states of \<open>import\<close>: when it returns, after \<open>unzip\<close>, after \<open>readAsText\<close>,
  after the manifest is checked, after the work list is built (or thrown) and after the
  third stage.
\<close>

definition called :: "env \<Rightarrow> ArchiveRequest \<Rightarrow> istate" where
  "called env req = \<lparr>trace = [CreateDir (workspace env)], lastResult = Some (first_of req), heap = [[]]\<rparr>"

definition unzipped :: "env \<Rightarrow> ArchiveRequest \<Rightarrow> istate" where
  "unzipped env req =
     \<lparr>trace = [CreateDir (workspace env), Unzip (Some (filePath_r req)) (workspace env)],
      lastResult = Some (first_of req), heap = [[]]\<rparr>"

definition opened :: "env \<Rightarrow> ArchiveRequest \<Rightarrow> istate" where
  "opened env req =
     \<lparr>trace = [CreateDir (workspace env), Unzip (Some (filePath_r req)) (workspace env),
               ReadAsText (workspace env) ''manifest.json''],
      lastResult = Some (first_of req), heap = [[]]\<rparr>"

definition checked :: "env \<Rightarrow> ArchiveRequest \<Rightarrow> json list \<Rightarrow> istate" where
  "checked env req its =
     \<lparr>trace = [CreateDir (workspace env), Unzip (Some (filePath_r req)) (workspace env),
               ReadAsText (workspace env) ''manifest.json''],
      lastResult = Some (first_of req),
      heap = [validated env its (map type_f (objects req))]\<rparr>"

definition handed :: "env \<Rightarrow> ArchiveRequest \<Rightarrow> json list \<Rightarrow> istate" where
  "handed env req its =
     \<lparr>trace = [CreateDir (workspace env), Unzip (Some (filePath_r req)) (workspace env),
               ReadAsText (workspace env) ''manifest.json''] @ import_calls env req its,
      lastResult = Some (first_of req),
      heap = [validated env its (map type_f (objects req))]\<rparr>"

definition imported :: "env \<Rightarrow> ArchiveRequest \<Rightarrow> json list \<Rightarrow> istate" where
  "imported env req its =
     \<lparr>trace = [CreateDir (workspace env), Unzip (Some (filePath_r req)) (workspace env),
               ReadAsText (workspace env) ''manifest.json''] @ import_calls env req its
              @ map snd (sources_of req),
      lastResult = (if import_emissions env req = [] then Some (first_of req)
                    else Some \<lparr>task = ''IMPORTING'', progress = length (import_emissions env req), filePath = None\<rparr>),
      heap = validated env its (map type_f (objects req))
             # map reduceObjectProgressToArchiveObjectImportProgress (import_emissions env req)\<rparr>"

text \<open>What is seen of the other three stages of \<open>import\<close>.\<close>

definition extracting :: "ArchiveRequest \<Rightarrow> seen" where
  "extracting req = (\<lparr>task = ''EXTRACTING'', progress = 0, filePath = Some (filePath_r req)\<rparr>, [])"

definition validating :: "env \<Rightarrow> ArchiveRequest \<Rightarrow> json list \<Rightarrow> seen" where
  "validating env req its =
     (\<lparr>task = ''VALIDATING'', progress = 0, filePath = Some (filePath_r req)\<rparr>,
      validated env its (map type_f (objects req)))"

definition complete :: "env \<Rightarrow> ArchiveRequest \<Rightarrow> json list \<Rightarrow> seen" where
  "complete env req its =
     (\<lparr>task = ''COMPLETE'', progress = 0, filePath = Some (filePath_r req)\<rparr>,
      validated env its (map type_f (objects req)))"

section \<open>The manifest file, written and read back\<close>

text \<open>
  What \<open>JSON.parse\<close> returns for the text that \<open>JSON.stringify\<close> gives for a manifest:
  an object with the properties of the manifest, each item an object with its five
  properties, its \<open>objectType\<close> the value of the enum member.
\<close>

definition json_of_encoding :: "ContentEncoding \<Rightarrow> json" where
  "json_of_encoding c =
     (case c of identity \<Rightarrow> JPrimitive (PString ''identity'') | gzip \<Rightarrow> JPrimitive (PString ''gzip''))"

definition json_of_item :: "(ArchiveObjectType \<Rightarrow> primitive) \<Rightarrow> ArchiveItem \<Rightarrow> json" where
  "json_of_item values i =
     JObject [(''objectType'', JPrimitive (values (objectType i))),
              (''file'', JPrimitive (PString (file_f i))),
              (''contentEncoding'', json_of_encoding (contentEncoding i)),
              (''size'', JPrimitive (PNumber (int (size_f i)))),
              (''explodedSize'', JPrimitive (PNumber (int (explodedSize i))))]"

definition json_of_manifest :: "(ArchiveObjectType \<Rightarrow> primitive) \<Rightarrow> ArchiveManifest \<Rightarrow> json" where
  "json_of_manifest values m =
     JObject [(''id'', JPrimitive (PString (id_f m))),
              (''ver'', JPrimitive (PString (ver m))),
              (''ts'', JPrimitive (PString (ts m))),
              (''producer'', JPrimitive (PString (producer m))),
              (''archive'',
               JObject [(''count'', JPrimitive (PNumber (int (count (archive m))))),
                        (''items'', JArray (map (json_of_item values) (items (archive m))))])]"

section \<open>A sample world\<close>

text \<open>
  One telemetry item and one profile item, the manifest of an archive that holds the first
  and of one that holds both, and a world where every collaborator succeeds: the enum
  members are the strings \<open>content\<close>, \<open>profile\<close> and \<open>telemetry\<close>, the telemetry
  export delegate reports the first item as completed, the manifest file holds the first
  manifest, and the telemetry import delegate reports that nothing is pending any more.
  The texts \<open>{}\<close> and \<open>null\<close> parse to the empty object and to \<open>null\<close>.
\<close>

definition item1 :: ArchiveItem where
  "item1 = \<lparr>objectType = TELEMETRY, file_f = ''telemetry-1.gz'', contentEncoding = gzip,
             size_f = 10, explodedSize = 40\<rparr>"

definition item2 :: ArchiveItem where
  "item2 = \<lparr>objectType = PROFILE, file_f = ''profiles.json'', contentEncoding = identity,
             size_f = 7, explodedSize = 7\<rparr>"

definition manifest1 :: ArchiveManifest where
  "manifest1 = \<lparr>id_f = ''sunbird.data.archive'', ver = ''1.0'', ts = ''t1'', producer = ''app'',
                 archive = \<lparr>count = 1, items = [item1]\<rparr>\<rparr>"

definition manifest2 :: ArchiveManifest where
  "manifest2 = \<lparr>id_f = ''sunbird.data.archive'', ver = ''1.0'', ts = ''t1'', producer = ''app'',
                 archive = \<lparr>count = 2, items = [item1, item2]\<rparr>\<rparr>"

definition values1 :: "ArchiveObjectType \<Rightarrow> primitive" where
  "values1 t =
     (case t of CONTENT \<Rightarrow> PString ''content'' | PROFILE \<Rightarrow> PString ''profile''
      | TELEMETRY \<Rightarrow> PString ''telemetry'')"

definition env1 :: env where
  "env1 = \<lparr>externalCacheDirectory = ''cache/'', generateUniqueId = ''w1'',
     manifest_time = ''t1'', zip_time = ''t2'',
     createDir_result = Inr (), unzip_result = Inr (), zip_result = Inr (),
     readAsText_result = Inr ''{1}'', writeFile_result = Inr (),
     buildContext_result = Inr \<lparr>pdata = ''app''\<rparr>,
     JSON_stringify = (\<lambda>m. if m = manifest1 then ''{1}'' else ''{2}''),
     JSON_parse = (\<lambda>s. if s = ''{1}'' then Some (json_of_manifest values1 manifest1)
                        else if s = ''{2}'' then Some (json_of_manifest values1 manifest2)
                        else if s = ''{}'' then Some (JObject [])
                        else if s = ''null'' then Some JNull
                        else None),
     type_value = values1,
     export_notifications = [(0, \<lparr>task_e = ''EXPORTED'', completed = [item1]\<rparr>)],
     export_error = None,
     import_notifications = [(0, \<lparr>task_i = ''IMPORTED'', pending = []\<rparr>)],
     import_error = None\<rparr>"

definition request :: "ArchiveObjectType list \<Rightarrow> ArchiveRequest" where
  "request types = \<lparr>objects = map (\<lambda>t. \<lparr>type_f = t\<rparr>) types, filePath_r = ''in.zip''\<rparr>"

lemma map_set_fst:
  "map fst (map_set k v m) = (if k \<in> set (map fst m) then map fst m else map fst m @ [k])"
  by (induction m) (auto simp del: set_map)

lemma map_set_keys: "set (map fst (map_set k v m)) = insert k (set (map fst m))"
  unfolding map_set_fst by (simp del: set_map add: insert_absorb)

lemma map_set_distinct: "distinct (map fst m) \<Longrightarrow> distinct (map fst (map_set k v m))"
  unfolding map_set_fst by (simp del: set_map)

lemma map_of_map_set: "map_of (map_set k v m) = (map_of m)(k \<mapsto> v)"
  by (induction m) auto

lemma foldl_map_set_keys:
  "set (map fst (foldl (\<lambda>acc (k, v). map_set k v acc) m xs)) = set (map fst m) \<union> set (map fst xs)"
proof (induction xs arbitrary: m)
  case Nil
  then show ?case by simp
next
  case (Cons x xs)
  obtain k v where x: "x = (k, v)" by (cases x)
  have "set (map fst (foldl (\<lambda>acc (k, v). map_set k v acc) (map_set k v m) xs))
          = insert k (set (map fst m)) \<union> set (map fst xs)"
    unfolding Cons.IH map_set_keys ..
  then show ?case unfolding x by (simp del: set_map)
qed

lemma foldl_map_set_distinct:
  "distinct (map fst m) \<Longrightarrow> distinct (map fst (foldl (\<lambda>acc (k, v). map_set k v acc) m xs))"
  by (induction xs arbitrary: m) (auto simp: map_set_distinct)

lemma reduce_export_keys:
  "set (map fst (reduceObjectProgressToArchiveObjectExportProgress results)) = set (map fst results)"
  by (simp add: reduceObjectProgressToArchiveObjectExportProgress_def foldl_map_set_keys del: set_map)

lemma reduce_export_distinct:
  "distinct (map fst (reduceObjectProgressToArchiveObjectExportProgress results))"
  by (simp add: reduceObjectProgressToArchiveObjectExportProgress_def foldl_map_set_distinct)

lemma reduce_import_keys:
  "set (map fst (reduceObjectProgressToArchiveObjectImportProgress results)) = set (map fst results)"
  by (simp add: reduceObjectProgressToArchiveObjectImportProgress_def foldl_map_set_keys del: set_map)

lemma reduce_import_distinct:
  "distinct (map fst (reduceObjectProgressToArchiveObjectImportProgress results))"
  by (simp add: reduceObjectProgressToArchiveObjectImportProgress_def foldl_map_set_distinct)

lemma flattenedItems_foldl:
  "foldl (\<lambda>acc (objectType, objectProgress). acc @ completed objectProgress) acc entries
     = acc @ concat (map (completed \<circ> snd) entries)"
  by (induction entries arbitrary: acc) auto

lemma flattenedItems_concat: "flattenedItems entries = concat (map (completed \<circ> snd) entries)"
  by (simp add: flattenedItems_def flattenedItems_foldl)

section \<open>combineLatest\<close>

text \<open>
  Every array that \<open>combineLatest\<close> emits has one value for each source, in the order of
  the sources, and the sources follow the requested objects.
\<close>

lemma those_map_fst:
  "those latest = Some vs \<Longrightarrow> length latest = length tags \<Longrightarrow>
   (\<And>i. i < length latest \<Longrightarrow> latest ! i = None \<or> (\<exists>p. latest ! i = Some (tags ! i, p))) \<Longrightarrow>
   map fst vs = tags"
proof (induction latest arbitrary: vs tags)
  case Nil
  then show ?case by simp
next
  case (Cons a latest)
  then obtain t ts where tags: "tags = t # ts" by (cases tags) auto
  from Cons.prems(1) obtain v vs' where a: "a = Some v" and vs': "those latest = Some vs'" and vs: "vs = v # vs'"
    by (auto split: option.splits)
  have "map fst vs' = ts"
  proof (rule Cons.IH [OF vs'])
    show "length latest = length ts" using Cons.prems(2) tags by simp
    fix i assume "i < length latest"
    then show "latest ! i = None \<or> (\<exists>p. latest ! i = Some (ts ! i, p))"
      using Cons.prems(3) [of "Suc i"] tags by simp
  qed
  moreover have "fst v = t" using Cons.prems(3) [of 0] a tags by auto
  ultimately show ?case using vs tags by simp
qed

lemma combineLatest_emissions_tags:
  "length latest = length sources \<Longrightarrow>
   (\<And>i. i < length latest \<Longrightarrow> latest ! i = None \<or> (\<exists>p. latest ! i = Some (map fst sources ! i, p))) \<Longrightarrow>
   vs \<in> set (combineLatest_emissions sources latest ns) \<Longrightarrow> map fst vs = map fst sources"
proof (induction sources latest ns rule: combineLatest_emissions.induct)
  case (1 sources latest)
  then show ?case by simp
next
  case (2 sources latest i v ns)
  show ?case
  proof (cases "i < length sources")
    case False
    with 2 show ?thesis by simp
  next
    case True
    let ?latest' = "latest[i := Some (fst (sources ! i), v)]"
    have len: "length ?latest' = length sources" using "2.prems"(1) by simp
    have inv: "\<And>j. j < length ?latest' \<Longrightarrow> ?latest' ! j = None \<or> (\<exists>p. ?latest' ! j = Some (map fst sources ! j, p))"
    proof -
      fix j assume j: "j < length ?latest'"
      show "?latest' ! j = None \<or> (\<exists>p. ?latest' ! j = Some (map fst sources ! j, p))"
      proof (cases "j = i")
        case True
        then show ?thesis using j \<open>i < length sources\<close> by simp
      next
        case False
        then show ?thesis using "2.prems"(2) [of j] j by simp
      qed
    qed
    from "2.prems"(3) True
    consider (now) "those ?latest' = Some vs" | (later) "vs \<in> set (combineLatest_emissions sources ?latest' ns)"
      by (auto simp: Let_def split: option.splits)
    then show ?thesis
    proof cases
      case now
      have "map fst vs = map fst sources"
        by (rule those_map_fst [OF now]) (use len inv in auto)
      then show ?thesis .
    next
      case later
      show ?thesis
        by (rule "2.IH"(1) [OF True refl len inv later])
    qed
  qed
qed

lemma combineLatest_emissions_initial:
  "vs \<in> set (combineLatest_emissions sources (map (\<lambda>_. None) sources) ns) \<Longrightarrow> map fst vs = map fst sources"
  by (rule combineLatest_emissions_tags [where latest = "map (\<lambda>_. None) sources" and ns = ns]) auto


section \<open>The work lists\<close>

text \<open>
  Building the work list calls the delegate once for each telemetry object before the first
  object without a delegate, and succeeds when there is no such object.
\<close>

lemma export_work_list_run:
  "export_work_list req wp objs s =
     (if list_all (\<lambda>object. type_f object = TELEMETRY) objs
      then Inr (map (\<lambda>_. (TELEMETRY, Subscribe TELEMETRY)) objs)
      else Inl (Error ''To be implemented''),
      s\<lparr>trace := trace s @ map (\<lambda>_. TelemetryExport (filePath_r req) wp)
                                  (takeWhile (\<lambda>object. type_f object = TELEMETRY) objs)\<rparr>)"
proof (induction objs arbitrary: s)
  case Nil
  then show ?case by simp
next
  case (Cons a objs)
  show ?case
    by (cases "type_f a") (simp_all add: Cons.IH call_def)
qed

lemma import_work_list_run:
  assumes "lastResult s = Some r"
    and "TELEMETRY \<in> set (map type_f objs) \<Longrightarrow> map_get (deref s (progress r)) TELEMETRY = Some p"
  shows "import_work_list req wp objs s =
     (if list_all (\<lambda>object. type_f object = TELEMETRY) objs
      then Inr (map (\<lambda>_. (TELEMETRY, Subscribe TELEMETRY)) objs)
      else Inl (Error ''To be implemented''),
      s\<lparr>trace := trace s @ map (\<lambda>_. TelemetryImport (filePath_r req) wp (pending p))
                                  (takeWhile (\<lambda>object. type_f object = TELEMETRY) objs)\<rparr>)"
  using assms
proof (induction objs arbitrary: s)
  case Nil
  then show ?case by simp
next
  case (Cons a objs)
  show ?case
  proof (cases "type_f a")
    case CONTENT
    then show ?thesis by simp
  next
    case PROFILE
    then show ?thesis by simp
  next
    case TELEMETRY
    let ?s = "call (TelemetryImport (filePath_r req) wp (pending p)) s"
    have p: "map_get (deref s (progress r)) TELEMETRY = Some p"
      using Cons.prems(2) TELEMETRY by simp
    have "import_work_list req wp objs ?s =
       (if list_all (\<lambda>object. type_f object = TELEMETRY) objs
        then Inr (map (\<lambda>_. (TELEMETRY, Subscribe TELEMETRY)) objs)
        else Inl (Error ''To be implemented''),
        ?s\<lparr>trace := trace ?s @ map (\<lambda>_. TelemetryImport (filePath_r req) wp (pending p))
                                  (takeWhile (\<lambda>object. type_f object = TELEMETRY) objs)\<rparr>)"
    proof (rule Cons.IH)
      show "lastResult ?s = Some r" using Cons.prems(1) by (simp add: call_def)
      have "deref ?s (progress r) = deref s (progress r)" by (simp add: call_def deref_def)
      then show "map_get (deref ?s (progress r)) TELEMETRY = Some p" using p by simp
    qed
    then show ?thesis using TELEMETRY Cons.prems(1) p by (simp add: call_def)
  qed
qed

lemma sources_of_tags: "map fst (sources_of req) = map type_f (objects req)"
  if "list_all (\<lambda>object. type_f object = TELEMETRY) (objects req)"
  using that by (simp add: sources_of_def list_all_iff)

lemma takeWhile_all: "list_all P xs \<Longrightarrow> takeWhile P xs = xs"
  by (induction xs) auto

section \<open>The run of export\<close>

text \<open>
  The run of \<open>export\<close> in every case: which collaborator fails first, if any.
\<close>

lemmas obs_defs = throwError_def of_obs_def from_promise_def defer_obs_def map_obs_def mapTo_def
  tap_obs_def concatMap_def

lemmas run_defs = run_import_def run_export_def subscribe_def emitted_def failure_def calls_def
  init_def call_def

lemma map_list_pure: "map_list (\<lambda>x s. (Inr (g x), s)) xs s = ((map g xs, None), s)"
  by (induction xs arbitrary: s) auto

lemma map_list_tap:
  "map_list (\<lambda>x s. (Inr x, s\<lparr>lastResult := Some x\<rparr>)) xs s
     = ((xs, None), if xs = [] then s else s\<lparr>lastResult := Some (last xs)\<rparr>)"
  by (induction xs arbitrary: s) auto

lemma export_objects_failed:
  "createDir_result env = Inl e \<Longrightarrow> export_objects env req s = (([], Some e), s)"
  by (simp add: export_objects_def obs_defs)

lemma export_objects_thrown:
  assumes "createDir_result env = Inr u"
    and "\<not> list_all (\<lambda>object. type_f object = TELEMETRY) (objects req)"
  shows "export_objects env req s
    = (([], Some (Error ''To be implemented'')), s\<lparr>trace := trace s @ export_calls env req\<rparr>)"
  using assms by (simp add: export_objects_def obs_defs export_work_list_run export_calls_def)

lemma export_objects_run:
  assumes "createDir_result env = Inr u"
    and "list_all (\<lambda>object. type_f object = TELEMETRY) (objects req)"
  shows "export_objects env req s
    = ((building env req, export_error env),
       (if building env req = [] then s\<lparr>trace := trace s @ export_calls env req @ map snd (sources_of req)\<rparr>
        else s\<lparr>trace := trace s @ export_calls env req @ map snd (sources_of req),
               lastResult := Some (last (building env req))\<rparr>))"
  using assms
  by (cases "export_error env")
     (simp_all add: export_objects_def obs_defs export_work_list_run combineLatest_def map_list_pure
        map_list_tap building_def export_calls_def sources_of_def)

lemma run_export_cases:
  assumes "objects req \<noteq> []"
  shows "run_export env req =
    (case createDir_result env of
       Inl e \<Rightarrow> (([], Some e), started env)
     | Inr u \<Rightarrow>
       if \<not> list_all (\<lambda>object. type_f object = TELEMETRY) (objects req) then
         (([], Some (Error ''To be implemented'')), dispatched env req)
       else
          (case export_error env of
             Some e \<Rightarrow> ((building env req, Some e), built env req)
           | None \<Rightarrow>
             if building env req = [] then ((building env req, Some TypeError), built env req)
             else
               (case buildContext_result env of
                  Inl e \<Rightarrow> ((building env req, Some e), call BuildContext (built env req))
                | Inr c \<Rightarrow>
                  (case writeFile_result env of
                     Inl e \<Rightarrow> ((building env req, Some e),
                        call (WriteFile (workspace env) ''manifest.json''
                               (JSON_stringify env (manifest env (pdata c) (progress (last (building env req))))))
                          (call BuildContext (built env req)))
                   | Inr u \<Rightarrow>
                     (case zip_result env of
                        Inl e \<Rightarrow>
                          ((building env req
                            @ [\<lparr>task = ''BUILDING_MANIFEST'', progress = progress (last (building env req)), filePath = None\<rparr>],
                            Some e),
                           call (Zip (workspace env) (zipFile env))
                             (call (WriteFile (workspace env) ''manifest.json''
                               (JSON_stringify env (manifest env (pdata c) (progress (last (building env req))))))
                               (call BuildContext (built env req))))
                      | Inr u \<Rightarrow>
                          ((building env req
                            @ [\<lparr>task = ''BUILDING_MANIFEST'', progress = progress (last (building env req)), filePath = None\<rparr>,
                               (last (building env req))\<lparr>task := ''COMPLETE'', filePath := Some (zipFile env)\<rparr>],
                            None),
                           call (Zip (workspace env) (zipFile env))
                             (call (WriteFile (workspace env) ''manifest.json''
                               (JSON_stringify env (manifest env (pdata c) (progress (last (building env req))))))
                               (call BuildContext (built env req)))))))))"
proof (cases "createDir_result env")
  case (Inl e)
  then show ?thesis using assms
    by (simp add: run_export_def subscribe_def export_def export_objects_failed init_def call_def started_def)
next
  case (Inr u)
  show ?thesis
  proof (cases "list_all (\<lambda>object. type_f object = TELEMETRY) (objects req)")
    case False
    then show ?thesis using assms Inr
      by (simp add: run_export_def subscribe_def export_def export_objects_thrown [OF Inr False] init_def
            call_def dispatched_def)
  next
    case True
    show ?thesis using assms Inr True
      by (simp add: run_export_def subscribe_def export_def export_objects_run [OF Inr True] init_def call_def
            built_def defer_obs_def generateManifestFile_def generateZipArchive_def obs_defs
          split: sum.splits option.splits)
  qed
qed

section \<open>The parsed manifest\<close>

lemma property_error: "property v name = Inl e \<Longrightarrow> v = JNull \<and> e = TypeError"
  by (cases v) auto

lemma manifest_items_error: "manifest_items m = Inl e \<Longrightarrow> e = TypeError"
  by (auto simp: manifest_items_def split: sum.splits option.splits json.splits dest: property_error)

lemma has_type_matches: "i \<noteq> JNull \<Longrightarrow> has_type env t i = Inr (matches env t i)"
  by (cases i) (auto simp: matches_def has_type_def)

lemma filter_js_readable:
  "JNull \<notin> set its \<Longrightarrow> filter_js (has_type env t) its = Inr (filter (matches env t) its)"
  by (induction its) (auto simp: has_type_matches)

lemma filter_js_null: "JNull \<in> set its \<Longrightarrow> filter_js (has_type env t) its = Inl TypeError"
proof (induction its)
  case Nil
  then show ?case by simp
next
  case (Cons i its)
  show ?case
  proof (cases "i = JNull")
    case True
    then show ?thesis by (simp add: has_type_def)
  next
    case False
    then have "JNull \<in> set its" using Cons.prems by auto
    then show ?thesis using False by (simp add: Cons.IH has_type_matches)
  qed
qed

lemma readable_Some: "readable m = Some its \<longleftrightarrow> manifest_items m = Inr its \<and> JNull \<notin> set its"
  by (auto simp: readable_def split: sum.splits if_splits)

lemma forEach_unreadable:
  assumes "readable m = None"
  shows "forEach_objectTypes env m r (t # types) s = (Some TypeError, s)"
proof (cases "manifest_items m")
  case (Inl e)
  then show ?thesis using manifest_items_error [OF Inl] by simp
next
  case (Inr its)
  then have "JNull \<in> set its" using assms by (simp add: readable_def split: if_splits)
  then show ?thesis using Inr by (simp add: filter_js_null)
qed

lemma forEach_trace:
  "trace (snd (forEach_objectTypes env m r types s)) = trace s
   \<and> lastResult (snd (forEach_objectTypes env m r types s)) = lastResult s
   \<and> length (heap (snd (forEach_objectTypes env m r types s))) = length (heap s)"
  by (induction types arbitrary: s) (auto split: sum.splits)

lemma forEach_fails:
  assumes "readable m = Some its"
  shows "t \<in> set types \<Longrightarrow> filter (matches env t) its = [] \<Longrightarrow>
   fst (forEach_objectTypes env m r types s) = Some (InvalidArchiveError ''Nothing to import'')"
proof -
  from assms have m: "manifest_items m = Inr its" and its: "JNull \<notin> set its"
    by (simp_all add: readable_Some)
  show "t \<in> set types \<Longrightarrow> filter (matches env t) its = [] \<Longrightarrow>
   fst (forEach_objectTypes env m r types s) = Some (InvalidArchiveError ''Nothing to import'')"
    by (induction types arbitrary: s) (auto simp: m filter_js_readable [OF its])
qed

lemma forEach_succeeds:
  assumes "readable m = Some its"
    and "\<forall>t\<in>set types. filter (matches env t) its \<noteq> []" and "r < length (heap s)"
  shows "forEach_objectTypes env m r types s
     = (None, s\<lparr>heap := (heap s)[r := foldl (\<lambda>acc t. map_set t (entry env its t) acc) (heap s ! r) types]\<rparr>)"
  using assms(2,3)
proof (induction types arbitrary: s)
  case Nil
  then show ?case by simp
next
  case (Cons t types)
  from assms(1) have m: "manifest_items m = Inr its" and its: "JNull \<notin> set its"
    by (simp_all add: readable_Some)
  let ?s = "s\<lparr>heap := (heap s)[r := map_set t (entry env its t) (heap s ! r)]\<rparr>"
  have "forEach_objectTypes env m r (t # types) s = forEach_objectTypes env m r types ?s"
    using Cons.prems by (simp add: m filter_js_readable [OF its] deref_def entry_def)
  also have "\<dots> = (None, ?s\<lparr>heap := (heap ?s)[r := foldl (\<lambda>acc t. map_set t (entry env its t) acc) (heap ?s ! r) types]\<rparr>)"
    using Cons.prems by (intro Cons.IH) auto
  finally show ?case using Cons.prems by simp
qed

lemma foldl_entries_keys:
  "set (map fst (foldl (\<lambda>acc t. map_set t (entry env its t) acc) acc types)) = set (map fst acc) \<union> set types"
  by (induction types arbitrary: acc) (auto simp del: set_map simp: map_set_keys)

lemma foldl_entries_distinct:
  "distinct (map fst acc) \<Longrightarrow> distinct (map fst (foldl (\<lambda>acc t. map_set t (entry env its t) acc) acc types))"
  by (induction types arbitrary: acc) (auto simp: map_set_distinct)

lemma foldl_entries_get:
  "t \<in> set types \<Longrightarrow> map_of (foldl (\<lambda>acc t. map_set t (entry env its t) acc) acc types) t = Some (entry env its t)"
proof (induction types arbitrary: acc)
  case Nil
  then show ?case by simp
next
  case (Cons a types)
  have keep: "map_of (foldl (\<lambda>acc t. map_set t (entry env its t) acc) acc' types) t = Some (entry env its t)"
    if "map_of acc' t = Some (entry env its t)" for acc'
    using that by (induction types arbitrary: acc') (auto simp: map_of_map_set)
  show ?case
  proof (cases "t \<in> set types")
    case True
    then show ?thesis by (simp add: Cons.IH)
  next
    case False
    with Cons.prems have "a = t" by simp
    then show ?thesis by (simp add: keep map_of_map_set)
  qed
qed

lemma map_set_mem: "(k', v') \<in> set (map_set k v m) \<Longrightarrow> (k', v') = (k, v) \<or> (k', v') \<in> set m"
  by (induction m) (auto split: if_splits)

lemma foldl_entries_mem:
  "(t, p) \<in> set (foldl (\<lambda>acc t. map_set t (entry env its t) acc) acc types) \<Longrightarrow>
   (t, p) \<in> set acc \<or> p = entry env its t"
proof (induction types arbitrary: acc)
  case Nil
  then show ?case by simp
next
  case (Cons a types)
  from Cons.IH [of "map_set a (entry env its a) acc"] Cons.prems
  have "(t, p) \<in> set (map_set a (entry env its a) acc) \<or> p = entry env its t" by simp
  then show ?case using map_set_mem [of t p a "entry env its a" acc] by auto
qed

lemma validated_mem: "(t, p) \<in> set (validated env its types) \<Longrightarrow> p = entry env its t"
  using foldl_entries_mem [of t p env its "[]" types] by (simp add: validated_def)

lemma validated_keys: "set (map fst (validated env its types)) = set types"
  using foldl_entries_keys [of env its "[]" types] by (simp add: validated_def del: set_map)

lemma validated_distinct: "distinct (map fst (validated env its types))"
  using foldl_entries_distinct [of "[]" env its types] by (simp add: validated_def)

lemma validated_get:
  "t \<in> set types \<Longrightarrow> map_get (validated env its types) t = Some (entry env its t)"
  by (simp add: map_get_def validated_def foldl_entries_get)

section \<open>The run of import\<close>

text \<open>
  The same for \<open>import\<close>. The entries of the shared \<open>Map\<close> are set in place while the
  manifest is checked; the third stage allocates one new \<open>Map\<close> for each array it receives.
\<close>

lemma map_list_read: "map_list (\<lambda>x s. (Inr (g x s), s)) xs s = ((map (\<lambda>x. g x s) xs, None), s)"
  by (induction xs arbitrary: s) auto

lemma map_list_alloc:
  "map_list (\<lambda>results s'.
       (Inr \<lparr>task = ''IMPORTING'', progress = length (heap s'), filePath = None\<rparr>,
        s'\<lparr>heap := heap s' @ [R results]\<rparr>)) rs (s :: istate)
   = ((map (\<lambda>a. \<lparr>task = ''IMPORTING'', progress = a, filePath = None\<rparr>)
         [length (heap s) ..< length (heap s) + length rs], None),
      s\<lparr>heap := heap s @ map R rs\<rparr>)"
proof (induction rs arbitrary: s)
  case Nil
  then show ?case by simp
next
  case (Cons r rs)
  have "[length (heap s) ..< length (heap s) + length (r # rs)]
          = length (heap s) # [Suc (length (heap s)) ..< Suc (length (heap s)) + length rs]"
    by (subst upt_conv_Cons) simp_all
  then show ?case by (simp add: Cons.IH del: upt_Suc)
qed

lemma checked_work_list:
  "import_work_list req (workspace env) (objects req) (checked env req its) =
     (if list_all (\<lambda>object. type_f object = TELEMETRY) (objects req)
      then Inr (sources_of req) else Inl (Error ''To be implemented''),
      handed env req its)"
proof -
  have lr: "lastResult (checked env req its) = Some (first_of req)" by (simp add: checked_def)
  have get: "map_get (deref (checked env req its) (progress (first_of req))) TELEMETRY
      = Some (entry env its TELEMETRY)"
    if "TELEMETRY \<in> set (map type_f (objects req))"
    using validated_get [OF that, of env its] by (simp add: deref_def checked_def first_of_def)
  have "(checked env req its)\<lparr>trace := trace (checked env req its)
          @ map (\<lambda>_. TelemetryImport (filePath_r req) (workspace env) (pending (entry env its TELEMETRY)))
              (takeWhile (\<lambda>object. type_f object = TELEMETRY) (objects req))\<rparr>
        = handed env req its"
    by (simp add: checked_def handed_def import_calls_def entry_def)
  then show ?thesis
    using import_work_list_run [OF lr get, of "objects req" req "workspace env"]
    by (simp add: sources_of_def)
qed

lemma import_objects_failed:
  "createDir_result env = Inl e \<Longrightarrow> observed (import_objects env req) s = (([], Some e), s)"
  by (simp add: import_objects_def observed_def obs_defs)

lemma import_objects_thrown:
  assumes "createDir_result env = Inr u"
    and "\<not> list_all (\<lambda>object. type_f object = TELEMETRY) (objects req)"
  shows "observed (import_objects env req) (checked env req its)
    = (([], Some (Error ''To be implemented'')), handed env req its)"
  using assms by (simp add: import_objects_def observed_def obs_defs checked_work_list)

lemma import_objects_run:
  assumes "createDir_result env = Inr u"
    and "list_all (\<lambda>object. type_f object = TELEMETRY) (objects req)"
  shows "observed (import_objects env req) (checked env req its)
    = ((importing env req, import_error env), imported env req its)"
proof -
  let ?E = "import_emissions env req"
  have last_importing: "?E \<noteq> [] \<Longrightarrow>
      last (map (\<lambda>a. \<lparr>task = ''IMPORTING'', progress = a, filePath = None\<rparr>) [Suc 0 ..< Suc (length ?E)])
        = \<lparr>task = ''IMPORTING'', progress = length ?E, filePath = None :: string option\<rparr>"
    by (cases "?E") simp_all
  have h: "heap (handed env req its) = [validated env its (map type_f (objects req))]"
    and t: "trace (handed env req its) = [CreateDir (workspace env), Unzip (Some (filePath_r req)) (workspace env),
               ReadAsText (workspace env) ''manifest.json''] @ import_calls env req its"
    and l: "lastResult (handed env req its) = Some (first_of req)"
    by (simp_all add: handed_def)
  show ?thesis
    using assms last_importing
    by (cases "import_error env")
       (auto simp add: import_objects_def observed_def obs_defs checked_work_list combineLatest_def
          map_list_alloc map_list_tap map_list_read importing_def import_emissions_def [symmetric]
          deref_def nth_Cons' h t l imported_def simp del: upt_Suc)
qed

lemma import_unfold:
  "objects req \<noteq> [] \<Longrightarrow>
   run_import env req =
     concat_obs
       [observed (defer_obs
          (\<lambda>s'. case lastResult s' of
             None \<Rightarrow> (Inl TypeError, s')
           | Some r \<Rightarrow> extractZipArchive env r (workspace env) s')),
        observed (defer_obs
          (\<lambda>s'. case lastResult s' of
             None \<Rightarrow> (Inl TypeError, s')
           | Some r \<Rightarrow> readManifestFile env r (workspace env) (map type_f (objects req)) s')),
        observed (import_objects env req),
        observed (of_obs ((first_of req)\<lparr>task := ''COMPLETE''\<rparr>))]
       (called env req)"
  by (simp add: run_import_def subscribe_def import_def Let_def init_def call_def called_def first_of_def)

lemma extract_run:
  "observed (defer_obs
          (\<lambda>s'. case lastResult s' of
             None \<Rightarrow> (Inl TypeError, s')
           | Some r \<Rightarrow> extractZipArchive env r (workspace env) s')) (called env req)
   = (case unzip_result env of
        Inl e \<Rightarrow> (([], Some e), unzipped env req)
      | Inr u \<Rightarrow> (([extracting req], None), unzipped env req))"
  by (simp add: observed_def obs_defs extractZipArchive_def called_def unzipped_def first_of_def call_def
        deref_def extracting_def split: sum.splits)

lemma read_run:
  assumes "objects req \<noteq> []"
  shows "observed (defer_obs
          (\<lambda>s'. case lastResult s' of
             None \<Rightarrow> (Inl TypeError, s')
           | Some r \<Rightarrow> readManifestFile env r (workspace env) (map type_f (objects req)) s')) (unzipped env req)
   = (case readAsText_result env of
        Inl e \<Rightarrow> (([], Some e), opened env req)
      | Inr content \<Rightarrow>
         (case JSON_parse env content of
            None \<Rightarrow> (([], Some (InvalidArchiveError ''Invalid manfiest.json'')), opened env req)
          | Some m \<Rightarrow>
             (case readable m of
                None \<Rightarrow> (([], Some TypeError), opened env req)
              | Some its \<Rightarrow>
                 (if \<exists>t\<in>set (map type_f (objects req)). filter (matches env t) its = [] then
                    (([], Some (InvalidArchiveError ''Nothing to import'')),
                     snd (forEach_objectTypes env m 0 (map type_f (objects req)) (opened env req)))
                  else (([validating env req its], None), checked env req its)))))"
proof -
  have start: "call (ReadAsText (workspace env) ''manifest.json'') (unzipped env req) = opened env req"
    by (simp add: unzipped_def opened_def call_def)
  have lr: "lastResult (unzipped env req) = Some (first_of req)"
    by (simp add: unzipped_def)
  show ?thesis
  proof (cases "readAsText_result env")
    case (Inl e)
    then show ?thesis
      by (simp add: observed_def obs_defs readManifestFile_def start lr)
  next
    case (Inr content)
    show ?thesis
    proof (cases "JSON_parse env content")
      case None
      then show ?thesis using Inr
        by (simp add: observed_def obs_defs readManifestFile_def start lr)
    next
      case (Some m)
      show ?thesis
      proof (cases "readable m")
        case None
        obtain t types where types: "map type_f (objects req) = t # types"
          using assms by (cases "objects req") auto
        have "forEach_objectTypes env m 0 (map type_f (objects req)) (opened env req)
            = (Some TypeError, opened env req)"
          unfolding types by (rule forEach_unreadable [OF None])
        moreover have "progress (first_of req) = 0" by (simp add: first_of_def)
        ultimately show ?thesis using Inr Some None
          by (simp add: observed_def obs_defs readManifestFile_def start lr)
      next
        case its: (Some its)
        show ?thesis
        proof (cases "\<exists>t\<in>set (map type_f (objects req)). filter (matches env t) its = []")
          case True
          then obtain t where "t \<in> set (map type_f (objects req))" and "filter (matches env t) its = []"
            by blast
          then have "fst (forEach_objectTypes env m 0 (map type_f (objects req)) (opened env req))
              = Some (InvalidArchiveError ''Nothing to import'')"
            by (rule forEach_fails [OF its])
          then obtain s' where eq: "forEach_objectTypes env m 0 (map type_f (objects req)) (opened env req)
              = (Some (InvalidArchiveError ''Nothing to import''), s')"
            by (metis prod.collapse)
          have p0: "progress (first_of req) = 0" by (simp add: first_of_def)
          show ?thesis using Inr Some its True
            by (simp add: observed_def obs_defs readManifestFile_def start lr p0 eq)
        next
          case False
          have "forEach_objectTypes env m 0 (map type_f (objects req)) (opened env req)
              = (None, (opened env req)\<lparr>heap := (heap (opened env req))
                    [0 := foldl (\<lambda>acc t. map_set t (entry env its t) acc) (heap (opened env req) ! 0)
                            (map type_f (objects req))]\<rparr>)"
            using False by (intro forEach_succeeds [OF its]) (auto simp: opened_def)
          then have ok: "forEach_objectTypes env m 0 (map type_f (objects req)) (opened env req)
              = (None, checked env req its)"
            by (simp add: opened_def checked_def validated_def)
          have p0: "progress (first_of req) = 0" by (simp add: first_of_def)
          show ?thesis using Inr Some its False
            by (simp add: observed_def obs_defs readManifestFile_def start lr p0 ok)
               (simp add: first_of_def validating_def checked_def deref_def)
        qed
      qed
    qed
  qed
qed

lemma complete_run:
  "heap s = v # vs \<Longrightarrow>
   observed (of_obs ((first_of req)\<lparr>task := ''COMPLETE''\<rparr>)) s
     = (([(\<lparr>task = ''COMPLETE'', progress = 0, filePath = Some (filePath_r req)\<rparr>, v)], None), s)"
  by (simp add: observed_def obs_defs first_of_def deref_def)

lemma run_import_cases:
  assumes "objects req \<noteq> []"
  shows "run_import env req =
    (case unzip_result env of
       Inl e \<Rightarrow> (([], Some e), unzipped env req)
     | Inr u \<Rightarrow>
       (case readAsText_result env of
          Inl e \<Rightarrow> (([extracting req], Some e), opened env req)
        | Inr content \<Rightarrow>
          (case JSON_parse env content of
             None \<Rightarrow> (([extracting req], Some (InvalidArchiveError ''Invalid manfiest.json'')), opened env req)
           | Some m \<Rightarrow>
             (case readable m of
                None \<Rightarrow> (([extracting req], Some TypeError), opened env req)
              | Some its \<Rightarrow>
                 (if \<exists>t\<in>set (map type_f (objects req)). filter (matches env t) its = [] then
                    (([extracting req], Some (InvalidArchiveError ''Nothing to import'')),
                     snd (forEach_objectTypes env m 0 (map type_f (objects req)) (opened env req)))
                  else
                    (case createDir_result env of
                       Inl e \<Rightarrow> (([extracting req, validating env req its], Some e), checked env req its)
                     | Inr u \<Rightarrow>
                       if \<not> list_all (\<lambda>object. type_f object = TELEMETRY) (objects req) then
                         (([extracting req, validating env req its], Some (Error ''To be implemented'')),
                          handed env req its)
                       else
                         (case import_error env of
                            Some e \<Rightarrow>
                              ((extracting req # validating env req its # importing env req, Some e),
                               imported env req its)
                          | None \<Rightarrow>
                              ((extracting req # validating env req its # importing env req
                                  @ [complete env req its], None),
                               imported env req its))))))))"
proof (cases "unzip_result env")
  case (Inl e)
  then show ?thesis by (simp add: import_unfold [OF assms] extract_run)
next
  case unzip: (Inr u)
  show ?thesis
  proof (cases "readAsText_result env")
    case (Inl e)
    then show ?thesis using unzip by (simp add: import_unfold [OF assms] extract_run read_run [OF assms])
  next
    case read: (Inr content)
    show ?thesis
    proof (cases "JSON_parse env content")
      case None
      then show ?thesis using unzip read by (simp add: import_unfold [OF assms] extract_run read_run [OF assms])
    next
      case parse: (Some m)
      show ?thesis
      proof (cases "readable m")
        case None
        then show ?thesis using unzip read parse
          by (simp add: import_unfold [OF assms] extract_run read_run [OF assms])
      next
        case its: (Some its)
        show ?thesis
        proof (cases "\<exists>t\<in>set (map type_f (objects req)). filter (matches env t) its = []")
          case True
          then show ?thesis using unzip read parse its
            by (simp add: import_unfold [OF assms] extract_run read_run [OF assms])
        next
          case valid: False
          show ?thesis
          proof (cases "createDir_result env")
            case (Inl e)
            then show ?thesis using unzip read parse its valid
              by (simp add: import_unfold [OF assms] extract_run read_run [OF assms] import_objects_failed)
          next
            case dir: (Inr u')
            show ?thesis
            proof (cases "list_all (\<lambda>object. type_f object = TELEMETRY) (objects req)")
              case False
              then show ?thesis using unzip read parse its valid dir
                by (simp add: import_unfold [OF assms] extract_run read_run [OF assms]
                      import_objects_thrown [OF dir False])
            next
              case True
              have hi: "heap (imported env req its) = validated env its (map type_f (objects req))
                       # map reduceObjectProgressToArchiveObjectImportProgress (import_emissions env req)"
                by (simp add: imported_def)
              show ?thesis using unzip read parse its valid dir True
                by (cases "import_error env")
                   (simp_all add: import_unfold [OF assms] extract_run read_run [OF assms]
                      import_objects_run [OF dir True] complete_run [OF hi] complete_def)
            qed
          qed
        qed
      qed
    qed
  qed
qed

section \<open>The sample world, evaluated\<close>

lemmas eval_defs = run_defs export_def import_def export_objects_def import_objects_def obs_defs observed_def
  extractZipArchive_def readManifestFile_def generateManifestFile_def generateZipArchive_def
  combineLatest_def workspace_def zipFile_def deref_def map_get_def manifest_def flattenedItems_def
  reduceObjectProgressToArchiveObjectExportProgress_def reduceObjectProgressToArchiveObjectImportProgress_def
  manifest_items_def has_type_def json_of_manifest_def json_of_item_def json_of_encoding_def values1_def
  ARCHIVE_ID_def ARCHIVE_VERSION_def Let_def

lemma run_import_env1:
  "run_import env1 (request [TELEMETRY]) =
    (([(\<lparr>task = ''EXTRACTING'', progress = 0, filePath = Some ''in.zip''\<rparr>, []),
       (\<lparr>task = ''VALIDATING'', progress = 0, filePath = Some ''in.zip''\<rparr>,
        [(TELEMETRY, \<lparr>task_i = ''INITIALISING'', pending = [json_of_item values1 item1]\<rparr>)]),
       (\<lparr>task = ''IMPORTING'', progress = 1, filePath = None\<rparr>,
        [(TELEMETRY, \<lparr>task_i = ''IMPORTED'', pending = []\<rparr>)]),
       (\<lparr>task = ''COMPLETE'', progress = 0, filePath = Some ''in.zip''\<rparr>,
        [(TELEMETRY, \<lparr>task_i = ''INITIALISING'', pending = [json_of_item values1 item1]\<rparr>)])], None),
     \<lparr>trace = [CreateDir ''cache/w1'', Unzip (Some ''in.zip'') ''cache/w1'',
               ReadAsText ''cache/w1'' ''manifest.json'',
               TelemetryImport ''in.zip'' ''cache/w1'' [json_of_item values1 item1],
               Subscribe TELEMETRY],
      lastResult = Some \<lparr>task = ''IMPORTING'', progress = 1, filePath = None\<rparr>,
      heap = [[(TELEMETRY, \<lparr>task_i = ''INITIALISING'', pending = [json_of_item values1 item1]\<rparr>)],
              [(TELEMETRY, \<lparr>task_i = ''IMPORTED'', pending = []\<rparr>)]]\<rparr>)"
  by (simp add: eval_defs env1_def request_def manifest1_def item1_def)

lemma run_export_env1:
  "run_export env1 (request [TELEMETRY]) =
    (([\<lparr>task = ''BUILDING'', progress = [(TELEMETRY, \<lparr>task_e = ''EXPORTED'', completed = [item1]\<rparr>)], filePath = None\<rparr>,
       \<lparr>task = ''BUILDING_MANIFEST'', progress = [(TELEMETRY, \<lparr>task_e = ''EXPORTED'', completed = [item1]\<rparr>)], filePath = None\<rparr>,
       \<lparr>task = ''COMPLETE'', progress = [(TELEMETRY, \<lparr>task_e = ''EXPORTED'', completed = [item1]\<rparr>)],
          filePath = Some ''cache/archive-t2.zip''\<rparr>], None),
     \<lparr>trace = [CreateDir ''cache/w1'', TelemetryExport ''in.zip'' ''cache/w1'', Subscribe TELEMETRY,
               BuildContext, WriteFile ''cache/w1'' ''manifest.json'' ''{1}'',
               Zip ''cache/w1'' ''cache/archive-t2.zip''],
      lastResult = Some \<lparr>task = ''BUILDING'', progress = [(TELEMETRY, \<lparr>task_e = ''EXPORTED'', completed = [item1]\<rparr>)], filePath = None\<rparr>,
      heap = []\<rparr>)"
  by (simp add: eval_defs env1_def request_def manifest1_def item1_def)

section \<open>What the snapshots hold\<close>

lemma forEach_calls:
  "trace (snd (forEach_objectTypes env m r types s)) = trace s"
  by (simp add: forEach_trace)

lemma importing_address:
  "x \<in> set (importing env req) \<Longrightarrow> task (fst x) = ''IMPORTING'' \<and> progress (fst x) \<noteq> 0"
  by (auto simp: importing_def simp del: upt_Suc)

lemma run_import_succeeds:
  assumes "failure (run_import env req) = None"
  obtains content m its where
    "objects req \<noteq> []" and "readAsText_result env = Inr content" and "JSON_parse env content = Some m"
    and "readable m = Some its"
    and "list_all (\<lambda>object. type_f object = TELEMETRY) (objects req)"
    and "run_import env req =
          ((extracting req # validating env req its # importing env req @ [complete env req its], None),
           imported env req its)"
proof -
  have nonempty: "objects req \<noteq> []"
    using assms by (auto simp: run_defs import_def throwError_def)
  show ?thesis
    using assms that [OF nonempty]
    by (auto simp: run_import_cases [OF nonempty] failure_def split: sum.splits option.splits if_splits)
qed

lemma building_keys:
  assumes "list_all (\<lambda>object. type_f object = TELEMETRY) (objects req)" and "p \<in> set (building env req)"
  shows "distinct (map fst (progress p)) \<and> set (map fst (progress p)) = set (map type_f (objects req))"
proof -
  from assms(2) obtain results where
    res: "results \<in> set (combineLatest_emissions (sources_of req) (map (\<lambda>_. None) (sources_of req))
                            (export_notifications env))"
    and p: "progress p = reduceObjectProgressToArchiveObjectExportProgress results"
    by (auto simp: building_def)
  have "map fst results = map type_f (objects req)"
    using combineLatest_emissions_initial [OF res] sources_of_tags [OF assms(1)] by simp
  then have "set (map fst results) = set (map type_f (objects req))" by simp
  then show ?thesis
    unfolding p using reduce_export_keys [of results] reduce_export_distinct [of results] by simp
qed

lemma importing_keys:
  assumes "list_all (\<lambda>object. type_f object = TELEMETRY) (objects req)" and "x \<in> set (importing env req)"
  shows "task (fst x) = ''IMPORTING'' \<and> distinct (map fst (snd x))
       \<and> set (map fst (snd x)) = set (map type_f (objects req))"
proof -
  from assms(2) obtain a where a: "1 \<le> a" "a < 1 + length (import_emissions env req)"
    and x: "x = (\<lparr>task = ''IMPORTING'', progress = a, filePath = None\<rparr>,
                 reduceObjectProgressToArchiveObjectImportProgress (import_emissions env req ! (a - 1)))"
    by (auto simp: importing_def simp del: upt_Suc)
  let ?results = "import_emissions env req ! (a - 1)"
  have "?results \<in> set (import_emissions env req)" using a by simp
  then have "map fst ?results = map fst (sources_of req)"
    unfolding import_emissions_def by (rule combineLatest_emissions_initial)
  then have "map fst ?results = map type_f (objects req)"
    using sources_of_tags [OF assms(1)] by simp
  then have "set (map fst ?results) = set (map type_f (objects req))" by simp
  then show ?thesis
    unfolding x using reduce_import_keys [of ?results] reduce_import_distinct [of ?results] by simp
qed

lemma run_export_emitted:
  assumes "p \<in> set (emitted (run_export env req))"
  obtains b where "list_all (\<lambda>object. type_f object = TELEMETRY) (objects req)"
    and "b \<in> set (building env req)" and "progress p = progress b"
proof -
  have nonempty: "objects req \<noteq> []"
    using assms by (auto simp: run_defs export_def throwError_def)
  have "list_all (\<lambda>object. type_f object = TELEMETRY) (objects req)
      \<and> progress p \<in> progress ` set (building env req)"
    using assms
    by (auto simp: run_export_cases [OF nonempty] emitted_def split: sum.splits option.splits if_splits)
  then show ?thesis using that by blast
qed

lemma run_import_emitted:
  assumes "x \<in> set (emitted (run_import env req))"
  shows "x = extracting req
       \<or> (\<exists>its. x = validating env req its \<or> x = complete env req its)
       \<or> (list_all (\<lambda>object. type_f object = TELEMETRY) (objects req) \<and> x \<in> set (importing env req))"
proof -
  have nonempty: "objects req \<noteq> []"
    using assms by (auto simp: run_defs import_def throwError_def)
  show ?thesis
    using assms
    by (auto simp: run_import_cases [OF nonempty] emitted_def split: sum.splits option.splits if_splits)
qed

lemma validated_seen:
  "distinct (map fst (validated env its types)) \<and> set (map fst (validated env its types)) = set types"
  using validated_keys [of env its types] validated_distinct [of env its types] by blast

lemma import_seen_keys:
  assumes "x \<in> set (emitted (run_import env req))"
  shows "if task (fst x) = ''EXTRACTING'' then snd x = []
        else distinct (map fst (snd x)) \<and> set (map fst (snd x)) = set (map type_f (objects req))"
  using run_import_emitted [OF assms]
proof (elim disjE exE conjE)
  assume "x = extracting req"
  then show ?thesis by (simp add: extracting_def)
next
  fix its assume "x = validating env req its"
  then show ?thesis using validated_seen [of env its "map type_f (objects req)"]
    by (simp add: validating_def del: set_map)
next
  fix its assume "x = complete env req its"
  then show ?thesis using validated_seen [of env its "map type_f (objects req)"]
    by (simp add: complete_def del: set_map)
next
  assume "list_all (\<lambda>object. type_f object = TELEMETRY) (objects req)"
    and "x \<in> set (importing env req)"
  then show ?thesis using importing_keys [of req x env] by simp
qed

lemma export_seen_keys:
  assumes "p \<in> set (emitted (run_export env req))"
  shows "distinct (map fst (progress p)) \<and> set (map fst (progress p)) = set (map type_f (objects req))"
proof -
  from assms obtain b where "list_all (\<lambda>object. type_f object = TELEMETRY) (objects req)"
    and "b \<in> set (building env req)" and "progress p = progress b"
    by (rule run_export_emitted)
  then show ?thesis
    using building_keys [of req b env] by simp
qed

section \<open>Types without a delegate\<close>

lemma unsupported_not_all:
  "CONTENT \<in> set (map type_f (objects req)) \<or> PROFILE \<in> set (map type_f (objects req)) \<Longrightarrow>
   \<not> list_all (\<lambda>object. type_f object = TELEMETRY) (objects req)"
  by (force simp: list_all_iff)

lemma export_unsupported:
  assumes "CONTENT \<in> set (map type_f (objects req)) \<or> PROFILE \<in> set (map type_f (objects req))"
  shows "run_export env req =
     (case createDir_result env of
        Inl e \<Rightarrow> (([], Some e), started env)
      | Inr u \<Rightarrow> (([], Some (Error ''To be implemented'')), dispatched env req))"
proof -
  have nonempty: "objects req \<noteq> []" using assms by auto
  show ?thesis
    using unsupported_not_all [OF assms]
    by (simp add: run_export_cases [OF nonempty] split: sum.splits)
qed

lemma import_unsupported_fails:
  assumes "CONTENT \<in> set (map type_f (objects req)) \<or> PROFILE \<in> set (map type_f (objects req))"
  shows "failure (run_import env req) \<noteq> None"
proof -
  have nonempty: "objects req \<noteq> []" using assms by auto
  show ?thesis
    using unsupported_not_all [OF assms]
    by (simp add: run_import_cases [OF nonempty] failure_def split: sum.splits option.splits)
qed

lemma import_unsupported_thrown:
  assumes "CONTENT \<in> set (map type_f (objects req)) \<or> PROFILE \<in> set (map type_f (objects req))"
    and "createDir_result env = Inr ()"
    and "''VALIDATING'' \<in> set (map (task \<circ> fst) (emitted (run_import env req)))"
  shows "failure (run_import env req) = Some (Error ''To be implemented'')
         \<and> map (task \<circ> fst) (emitted (run_import env req)) = [''EXTRACTING'', ''VALIDATING'']
         \<and> (\<exists>its. calls (run_import env req) =
               [CreateDir (workspace env), Unzip (Some (filePath_r req)) (workspace env),
                ReadAsText (workspace env) ''manifest.json'']
               @ map (\<lambda>_. TelemetryImport (filePath_r req) (workspace env) its)
                   (takeWhile (\<lambda>object. type_f object = TELEMETRY) (objects req)))"
proof -
  have nonempty: "objects req \<noteq> []" using assms(1) by auto
  have h: "\<exists>items. trace (handed env req its) =
               [CreateDir (workspace env), Unzip (Some (filePath_r req)) (workspace env),
                ReadAsText (workspace env) ''manifest.json'']
               @ map (\<lambda>_. TelemetryImport (filePath_r req) (workspace env) items)
                   (takeWhile (\<lambda>object. type_f object = TELEMETRY) (objects req))" for its
    by (auto simp: handed_def import_calls_def)
  show ?thesis
    using assms(2,3) unsupported_not_all [OF assms(1)] h
    by (auto simp: run_import_cases [OF nonempty] failure_def emitted_def calls_def
          extracting_def validating_def split: sum.splits option.splits if_splits)
qed

lemma matches_eq: "matches env t = (\<lambda>i. has_type env t i = Inr True)"
  by (rule ext) (simp add: matches_def)

lemma run_export_succeeds:
  assumes "failure (run_export env req) = None"
  obtains c where "buildContext_result env = Inr c"
    and "list_all (\<lambda>object. type_f object = TELEMETRY) (objects req)"
    and "objects req \<noteq> []"
    and "building env req \<noteq> []"
    and "run_export env req =
       ((building env req
          @ [\<lparr>task = ''BUILDING_MANIFEST'', progress = progress (last (building env req)), filePath = None\<rparr>,
             (last (building env req))\<lparr>task := ''COMPLETE'', filePath := Some (zipFile env)\<rparr>],
         None),
        call (Zip (workspace env) (zipFile env))
          (call (WriteFile (workspace env) ''manifest.json''
             (JSON_stringify env (manifest env (pdata c) (progress (last (building env req))))))
             (call BuildContext (built env req))))"
proof -
  have nonempty: "objects req \<noteq> []"
    using assms by (auto simp: run_defs export_def throwError_def)
  show ?thesis
    using assms that nonempty
    by (auto simp: run_export_cases [OF nonempty] failure_def split: sum.splits option.splits if_splits)
qed

section \<open>The manifest read back\<close>

lemma manifest_items_json:
  "manifest_items (json_of_manifest values m) = Inr (map (json_of_item values) (items (archive m)))"
  by (simp add: manifest_items_def json_of_manifest_def)








section \<open>Claims\<close>

lemma first_error_None_iff: "first_error ps = None \<longleftrightarrow> (\<forall>p\<in>set ps. p = Inr ())"
  by (induction ps rule: first_error.induct) auto

lemma delete_run:
  "delete db uid s =
     (([first_error (outcomes db uid) = None], None),
      s @ [BeginTransaction] @ map Delete (delete_queries uid)
        @ [Execute (key_value_statement uid), EndTransaction (first_error (outcomes db uid) = None)])"
  by (cases "first_error (outcomes db uid)")
     (simp_all add: delete_def catchError_def mergeMap_def delete_all_def zip_obs_def obs_defs)

text \<open>
  C10: \<open>DeleteProfileDataHandler.delete\<close> never ends with an error. It begins a
  transaction, issues the deletion of the rows of the user in each of the ten tables and
  the raw statement on the key-value store, and ends the transaction. It emits one value:
  \<open>true\<close>, after \<open>endTransaction(true)\<close>, when each of the eleven calls succeeded;
  \<open>false\<close>, after \<open>endTransaction(false)\<close>, when one of them failed.
\<close>

theorem delete_never_fails:
  "failure (delete db uid s) = None
   \<and> snd (delete db uid s) =
       s @ [BeginTransaction,
            Delete \<lparr>table = ProfileEntry, selection = (ProfileEntry, COLUMN_NAME_UID), selectionArgs = [uid]\<rparr>,
            Delete \<lparr>table = ContentMarkerEntry, selection = (ContentMarkerEntry, COLUMN_NAME_UID), selectionArgs = [uid]\<rparr>,
            Delete \<lparr>table = ContentAccessEntry, selection = (ContentAccessEntry, COLUMN_NAME_UID), selectionArgs = [uid]\<rparr>,
            Delete \<lparr>table = LearnerAssessmentsEntry, selection = (LearnerAssessmentsEntry, COLUMN_NAME_UID), selectionArgs = [uid]\<rparr>,
            Delete \<lparr>table = LearnerSummaryEntry, selection = (LearnerSummaryEntry, COLUMN_NAME_UID), selectionArgs = [uid]\<rparr>,
            Delete \<lparr>table = ContentFeedbackEntry, selection = (ContentFeedbackEntry, COLUMN_NAME_UID), selectionArgs = [uid]\<rparr>,
            Delete \<lparr>table = SearchHistoryEntry, selection = (SearchHistoryEntry, COLUMN_NAME_USER_ID), selectionArgs = [uid]\<rparr>,
            Delete \<lparr>table = GroupProfileEntry, selection = (GroupProfileEntry, COLUMN_NAME_UID), selectionArgs = [uid]\<rparr>,
            Delete \<lparr>table = UserEntry, selection = (UserEntry, COLUMN_NAME_UID), selectionArgs = [uid]\<rparr>,
            Delete \<lparr>table = PlayerConfigEntry, selection = (PlayerConfigEntry, COLUMN_NAME_USER_ID), selectionArgs = [uid]\<rparr>,
            Execute (DELETE_FROM_WHERE_LIKE KeyValueStoreEntry (KeyValueStoreEntry, COLUMN_NAME_KEY) (''%%'' @ uid @ ''%%'')),
            EndTransaction (hd (emitted (delete db uid s)))]
   \<and> emitted (delete db uid s) =
       [delete_result db \<lparr>table = ProfileEntry, selection = (ProfileEntry, COLUMN_NAME_UID), selectionArgs = [uid]\<rparr> = Inr ()
        \<and> delete_result db \<lparr>table = ContentMarkerEntry, selection = (ContentMarkerEntry, COLUMN_NAME_UID), selectionArgs = [uid]\<rparr> = Inr ()
        \<and> delete_result db \<lparr>table = ContentAccessEntry, selection = (ContentAccessEntry, COLUMN_NAME_UID), selectionArgs = [uid]\<rparr> = Inr ()
        \<and> delete_result db \<lparr>table = LearnerAssessmentsEntry, selection = (LearnerAssessmentsEntry, COLUMN_NAME_UID), selectionArgs = [uid]\<rparr> = Inr ()
        \<and> delete_result db \<lparr>table = LearnerSummaryEntry, selection = (LearnerSummaryEntry, COLUMN_NAME_UID), selectionArgs = [uid]\<rparr> = Inr ()
        \<and> delete_result db \<lparr>table = ContentFeedbackEntry, selection = (ContentFeedbackEntry, COLUMN_NAME_UID), selectionArgs = [uid]\<rparr> = Inr ()
        \<and> delete_result db \<lparr>table = SearchHistoryEntry, selection = (SearchHistoryEntry, COLUMN_NAME_USER_ID), selectionArgs = [uid]\<rparr> = Inr ()
        \<and> delete_result db \<lparr>table = GroupProfileEntry, selection = (GroupProfileEntry, COLUMN_NAME_UID), selectionArgs = [uid]\<rparr> = Inr ()
        \<and> delete_result db \<lparr>table = UserEntry, selection = (UserEntry, COLUMN_NAME_UID), selectionArgs = [uid]\<rparr> = Inr ()
        \<and> delete_result db \<lparr>table = PlayerConfigEntry, selection = (PlayerConfigEntry, COLUMN_NAME_USER_ID), selectionArgs = [uid]\<rparr> = Inr ()
        \<and> execute_result db (DELETE_FROM_WHERE_LIKE KeyValueStoreEntry (KeyValueStoreEntry, COLUMN_NAME_KEY) (''%%'' @ uid @ ''%%'')) = Inr ()]"
proof -
  have ok: "(first_error (outcomes db uid) = None) =
       (delete_result db \<lparr>table = ProfileEntry, selection = (ProfileEntry, COLUMN_NAME_UID), selectionArgs = [uid]\<rparr> = Inr ()
        \<and> delete_result db \<lparr>table = ContentMarkerEntry, selection = (ContentMarkerEntry, COLUMN_NAME_UID), selectionArgs = [uid]\<rparr> = Inr ()
        \<and> delete_result db \<lparr>table = ContentAccessEntry, selection = (ContentAccessEntry, COLUMN_NAME_UID), selectionArgs = [uid]\<rparr> = Inr ()
        \<and> delete_result db \<lparr>table = LearnerAssessmentsEntry, selection = (LearnerAssessmentsEntry, COLUMN_NAME_UID), selectionArgs = [uid]\<rparr> = Inr ()
        \<and> delete_result db \<lparr>table = LearnerSummaryEntry, selection = (LearnerSummaryEntry, COLUMN_NAME_UID), selectionArgs = [uid]\<rparr> = Inr ()
        \<and> delete_result db \<lparr>table = ContentFeedbackEntry, selection = (ContentFeedbackEntry, COLUMN_NAME_UID), selectionArgs = [uid]\<rparr> = Inr ()
        \<and> delete_result db \<lparr>table = SearchHistoryEntry, selection = (SearchHistoryEntry, COLUMN_NAME_USER_ID), selectionArgs = [uid]\<rparr> = Inr ()
        \<and> delete_result db \<lparr>table = GroupProfileEntry, selection = (GroupProfileEntry, COLUMN_NAME_UID), selectionArgs = [uid]\<rparr> = Inr ()
        \<and> delete_result db \<lparr>table = UserEntry, selection = (UserEntry, COLUMN_NAME_UID), selectionArgs = [uid]\<rparr> = Inr ()
        \<and> delete_result db \<lparr>table = PlayerConfigEntry, selection = (PlayerConfigEntry, COLUMN_NAME_USER_ID), selectionArgs = [uid]\<rparr> = Inr ()
        \<and> execute_result db (DELETE_FROM_WHERE_LIKE KeyValueStoreEntry (KeyValueStoreEntry, COLUMN_NAME_KEY) (''%%'' @ uid @ ''%%'')) = Inr ())"
    unfolding first_error_None_iff
    by (simp add: outcomes_def delete_queries_def uid_query_def key_value_statement_def)
  have queries: "map Delete (delete_queries uid) @ [Execute (key_value_statement uid)] =
      [Delete \<lparr>table = ProfileEntry, selection = (ProfileEntry, COLUMN_NAME_UID), selectionArgs = [uid]\<rparr>,
       Delete \<lparr>table = ContentMarkerEntry, selection = (ContentMarkerEntry, COLUMN_NAME_UID), selectionArgs = [uid]\<rparr>,
       Delete \<lparr>table = ContentAccessEntry, selection = (ContentAccessEntry, COLUMN_NAME_UID), selectionArgs = [uid]\<rparr>,
       Delete \<lparr>table = LearnerAssessmentsEntry, selection = (LearnerAssessmentsEntry, COLUMN_NAME_UID), selectionArgs = [uid]\<rparr>,
       Delete \<lparr>table = LearnerSummaryEntry, selection = (LearnerSummaryEntry, COLUMN_NAME_UID), selectionArgs = [uid]\<rparr>,
       Delete \<lparr>table = ContentFeedbackEntry, selection = (ContentFeedbackEntry, COLUMN_NAME_UID), selectionArgs = [uid]\<rparr>,
       Delete \<lparr>table = SearchHistoryEntry, selection = (SearchHistoryEntry, COLUMN_NAME_USER_ID), selectionArgs = [uid]\<rparr>,
       Delete \<lparr>table = GroupProfileEntry, selection = (GroupProfileEntry, COLUMN_NAME_UID), selectionArgs = [uid]\<rparr>,
       Delete \<lparr>table = UserEntry, selection = (UserEntry, COLUMN_NAME_UID), selectionArgs = [uid]\<rparr>,
       Delete \<lparr>table = PlayerConfigEntry, selection = (PlayerConfigEntry, COLUMN_NAME_USER_ID), selectionArgs = [uid]\<rparr>,
       Execute (DELETE_FROM_WHERE_LIKE KeyValueStoreEntry (KeyValueStoreEntry, COLUMN_NAME_KEY) (''%%'' @ uid @ ''%%''))]"
    by (simp add: delete_queries_def uid_query_def key_value_statement_def)
  have run: "delete db uid s =
     (([first_error (outcomes db uid) = None], None),
      s @ [BeginTransaction] @ (map Delete (delete_queries uid) @ [Execute (key_value_statement uid)])
        @ [EndTransaction (first_error (outcomes db uid) = None)])"
    by (simp add: delete_run)
  show ?thesis
    unfolding run queries failure_def emitted_def by (simp add: ok)
qed

text \<open>
  C5: with an empty list of objects, \<open>export\<close> and \<open>import\<close> fail with
  \<open>InvalidRequestError\<close>, emit nothing and call no collaborator; in particular
  \<open>createDir\<close> is not called.
\<close>

theorem empty_request_rejected:
  assumes "objects req = []"
  shows "failure (run_export env req) = Some (InvalidRequestError ''No archive objects to export'')
       \<and> emitted (run_export env req) = [] \<and> calls (run_export env req) = []
       \<and> failure (run_import env req) = Some (InvalidRequestError ''No archive objects to export'')
       \<and> emitted (run_import env req) = [] \<and> calls (run_import env req) = []"
  using assms by (simp add: run_defs export_def import_def throwError_def)

theorem empty_request_rejected_witness:
  "objects (request []) = []
   \<and> failure (run_export env1 (request [])) = Some (InvalidRequestError ''No archive objects to export'')
   \<and> calls (run_export env1 (request [])) = []
   \<and> failure (run_import env1 (request [])) = Some (InvalidRequestError ''No archive objects to export'')
   \<and> calls (run_import env1 (request [])) = []"
proof -
  have h: "objects (request []) = []" by (simp add: request_def)
  show ?thesis using h empty_request_rejected [OF h, of env1] by simp
qed

text \<open>
  C7: when the content of the manifest file does not parse, \<open>import\<close> fails with
  \<open>InvalidArchiveError\<close> (``Invalid manfiest.json''); only the \<open>EXTRACTING\<close>
  snapshot was emitted and no delegate is called.
\<close>

theorem unparseable_manifest:
  assumes "objects req \<noteq> []" and "unzip_result env = Inr ()"
    and "readAsText_result env = Inr content" and "JSON_parse env content = None"
  shows "failure (run_import env req) = Some (InvalidArchiveError ''Invalid manfiest.json'')
       \<and> map (task \<circ> fst) (emitted (run_import env req)) = [''EXTRACTING'']
       \<and> calls (run_import env req) =
           [CreateDir (workspace env), Unzip (Some (filePath_r req)) (workspace env),
            ReadAsText (workspace env) ''manifest.json'']"
  using assms
  by (simp add: run_import_cases failure_def emitted_def calls_def extracting_def opened_def)

theorem unparseable_manifest_witness:
  "objects (request [TELEMETRY]) \<noteq> []
   \<and> unzip_result (env1\<lparr>readAsText_result := Inr ''not json''\<rparr>) = Inr ()
   \<and> readAsText_result (env1\<lparr>readAsText_result := Inr ''not json''\<rparr>) = Inr ''not json''
   \<and> JSON_parse (env1\<lparr>readAsText_result := Inr ''not json''\<rparr>) ''not json'' = None
   \<and> failure (run_import (env1\<lparr>readAsText_result := Inr ''not json''\<rparr>) (request [TELEMETRY]))
       = Some (InvalidArchiveError ''Invalid manfiest.json'')"
proof -
  let ?env = "env1\<lparr>readAsText_result := Inr ''not json''\<rparr>"
  have h1: "objects (request [TELEMETRY]) \<noteq> []" by (simp add: request_def)
  have h2: "unzip_result ?env = Inr ()" by (simp add: env1_def)
  have h3: "readAsText_result ?env = Inr ''not json''" by simp
  have h4: "JSON_parse ?env ''not json'' = None" by (simp add: env1_def)
  show ?thesis using h1 h2 h3 h4 unparseable_manifest [OF h1 h2 h3 h4] by simp
qed

text \<open>
  C8, as stated, fails: the text \<open>{}\<close> parses, to an object that has no \<open>archive\<close>,
  so no item of it has the requested type; the import of telemetry from it does not fail
  with \<open>InvalidArchiveError\<close> but with the \<open>TypeError\<close> of reading \<open>items\<close> of
  \<open>undefined\<close>.
\<close>

theorem nothing_to_import_counterexample:
  "JSON_parse (env1\<lparr>readAsText_result := Inr ''{}''\<rparr>) ''{}'' = Some (JObject [])
   \<and> property (JObject []) ''archive'' = Inr None
   \<and> failure (run_import (env1\<lparr>readAsText_result := Inr ''{}''\<rparr>) (request [TELEMETRY])) = Some TypeError
   \<and> map (task \<circ> fst) (emitted (run_import (env1\<lparr>readAsText_result := Inr ''{}''\<rparr>) (request [TELEMETRY])))
       = [''EXTRACTING'']"
  by (simp add: eval_defs env1_def request_def)

text \<open>
  C8, amended: when \<open>archive.items\<close> of the parsed manifest is an array, none of its
  elements is \<open>null\<close>, and no element has the \<open>objectType\<close> of some requested type,
  \<open>import\<close> fails with \<open>InvalidArchiveError\<close> (``Nothing to import''); only the
  \<open>EXTRACTING\<close> snapshot was emitted and no delegate is called.
\<close>

theorem nothing_to_import:
  assumes "unzip_result env = Inr ()" and "readAsText_result env = Inr content"
    and "JSON_parse env content = Some m"
    and "manifest_items m = Inr its" and "JNull \<notin> set its"
    and "t \<in> set (map type_f (objects req))"
    and "filter (\<lambda>i. has_type env t i = Inr True) its = []"
  shows "failure (run_import env req) = Some (InvalidArchiveError ''Nothing to import'')
       \<and> map (task \<circ> fst) (emitted (run_import env req)) = [''EXTRACTING'']
       \<and> calls (run_import env req) =
           [CreateDir (workspace env), Unzip (Some (filePath_r req)) (workspace env),
            ReadAsText (workspace env) ''manifest.json'']"
proof -
  have nonempty: "objects req \<noteq> []" using assms(6) by auto
  have shape: "readable m = Some its" using assms(4,5) by (simp add: readable_Some)
  have "filter (matches env t) its = []" using assms(7) by (simp add: matches_eq)
  then have missing: "\<exists>t\<in>set (map type_f (objects req)). filter (matches env t) its = []"
    using assms(6) by blast
  have "run_import env req =
      (([extracting req], Some (InvalidArchiveError ''Nothing to import'')),
       snd (forEach_objectTypes env m 0 (map type_f (objects req)) (opened env req)))"
    using assms(1-3) shape missing by (simp add: run_import_cases [OF nonempty])
  then show ?thesis
    by (simp add: failure_def emitted_def calls_def extracting_def forEach_calls opened_def)
qed

theorem nothing_to_import_witness:
  "unzip_result env1 = Inr () \<and> readAsText_result env1 = Inr ''{1}''
   \<and> JSON_parse env1 ''{1}'' = Some (json_of_manifest values1 manifest1)
   \<and> manifest_items (json_of_manifest values1 manifest1) = Inr [json_of_item values1 item1]
   \<and> JNull \<notin> set [json_of_item values1 item1]
   \<and> PROFILE \<in> set (map type_f (objects (request [TELEMETRY, PROFILE])))
   \<and> filter (\<lambda>i. has_type env1 PROFILE i = Inr True) [json_of_item values1 item1] = []
   \<and> failure (run_import env1 (request [TELEMETRY, PROFILE])) = Some (InvalidArchiveError ''Nothing to import'')"
proof -
  have h1: "unzip_result env1 = Inr ()" by (simp add: env1_def)
  have h2: "readAsText_result env1 = Inr ''{1}''" by (simp add: env1_def)
  have h3: "JSON_parse env1 ''{1}'' = Some (json_of_manifest values1 manifest1)" by (simp add: env1_def)
  have h4: "manifest_items (json_of_manifest values1 manifest1) = Inr [json_of_item values1 item1]"
    by (simp add: manifest_items_json manifest1_def)
  have h5: "JNull \<notin> set [json_of_item values1 item1]" by (simp add: json_of_item_def)
  have h6: "PROFILE \<in> set (map type_f (objects (request [TELEMETRY, PROFILE])))" by (simp add: request_def)
  have h7: "filter (\<lambda>i. has_type env1 PROFILE i = Inr True) [json_of_item values1 item1] = []"
    by (simp add: has_type_def json_of_item_def item1_def env1_def values1_def)
  show ?thesis using h1 h2 h3 h4 h5 h6 h7 nothing_to_import [OF h1 h2 h3 h4 h5 h6 h7] by simp
qed

text \<open>
  C9: the \<open>COMPLETE\<close> snapshot of a successful \<open>import\<close> is the first value of
  \<open>lastResult\<close> with its task replaced: it points to the \<open>Map\<close> at address 0, the one
  the \<open>EXTRACTING\<close> snapshot showed empty. When it is delivered that \<open>Map\<close> holds, for
  each requested type, the entry that \<open>readManifestFile\<close> set: task \<open>INITIALISING\<close> and
  the manifest's items of the type as pending. Every \<open>IMPORTING\<close> snapshot points to
  another \<open>Map\<close>, so what the delegates report is not in the \<open>COMPLETE\<close> snapshot.
\<close>

theorem complete_snapshot_is_stale:
  assumes "failure (run_import env req) = None"
  shows "\<exists>content m its.
      readAsText_result env = Inr content \<and> JSON_parse env content = Some m
    \<and> manifest_items m = Inr its
    \<and> fst (hd (emitted (run_import env req)))
        = \<lparr>task = ''EXTRACTING'', progress = 0, filePath = Some (filePath_r req)\<rparr>
    \<and> snd (hd (emitted (run_import env req))) = []
    \<and> fst (last (emitted (run_import env req)))
        = \<lparr>task = ''COMPLETE'', progress = 0, filePath = Some (filePath_r req)\<rparr>
    \<and> set (map fst (snd (last (emitted (run_import env req))))) = set (map type_f (objects req))
    \<and> (\<forall>(t, p) \<in> set (snd (last (emitted (run_import env req)))).
          p = \<lparr>task_i = ''INITIALISING'',
               pending = filter (\<lambda>i. has_type env t i = Inr True) its\<rparr>)
    \<and> (\<forall>x \<in> set (emitted (run_import env req)).
          task (fst x) = ''IMPORTING'' \<longrightarrow> progress (fst x) \<noteq> 0)"
proof -
  from assms obtain content m its where
    read: "readAsText_result env = Inr content" and parse: "JSON_parse env content = Some m"
    and shape: "readable m = Some its"
    and run: "run_import env req =
          ((extracting req # validating env req its # importing env req @ [complete env req its], None),
           imported env req its)"
    by (rule run_import_succeeds)
  have its: "manifest_items m = Inr its" using shape by (simp add: readable_Some)
  have em: "emitted (run_import env req)
      = extracting req # validating env req its # importing env req @ [complete env req its]"
    by (simp add: run emitted_def)
  have entries: "\<forall>(t, p) \<in> set (snd (complete env req its)).
      p = \<lparr>task_i = ''INITIALISING'', pending = filter (\<lambda>i. has_type env t i = Inr True) its\<rparr>"
    using validated_mem [of _ _ env its "map type_f (objects req)"]
    by (auto simp: complete_def entry_def matches_eq)
  have others: "\<forall>x \<in> set (emitted (run_import env req)). task (fst x) = ''IMPORTING'' \<longrightarrow> progress (fst x) \<noteq> 0"
    using importing_address [of _ env req]
    by (auto simp: em extracting_def validating_def complete_def)
  have "fst (hd (emitted (run_import env req)))
        = \<lparr>task = ''EXTRACTING'', progress = 0, filePath = Some (filePath_r req)\<rparr>"
    and "snd (hd (emitted (run_import env req))) = []"
    and "fst (last (emitted (run_import env req)))
        = \<lparr>task = ''COMPLETE'', progress = 0, filePath = Some (filePath_r req)\<rparr>"
    and "set (map fst (snd (last (emitted (run_import env req))))) = set (map type_f (objects req))"
    and "\<forall>(t, p) \<in> set (snd (last (emitted (run_import env req)))).
          p = \<lparr>task_i = ''INITIALISING'', pending = filter (\<lambda>i. has_type env t i = Inr True) its\<rparr>"
    using entries validated_keys [of env its "map type_f (objects req)"]
    by (simp_all add: em extracting_def complete_def del: set_map)
  with read parse its others show ?thesis by blast
qed

theorem complete_snapshot_is_stale_witness:
  "failure (run_import env1 (request [TELEMETRY])) = None
   \<and> readAsText_result env1 = Inr ''{1}''
   \<and> JSON_parse env1 ''{1}'' = Some (json_of_manifest values1 manifest1)
   \<and> last (emitted (run_import env1 (request [TELEMETRY])))
       = (\<lparr>task = ''COMPLETE'', progress = 0, filePath = Some ''in.zip''\<rparr>,
          [(TELEMETRY, \<lparr>task_i = ''INITIALISING'', pending = [json_of_item values1 item1]\<rparr>)])
   \<and> emitted (run_import env1 (request [TELEMETRY])) ! 2
       = (\<lparr>task = ''IMPORTING'', progress = 1, filePath = None\<rparr>,
          [(TELEMETRY, \<lparr>task_i = ''IMPORTED'', pending = []\<rparr>)])"
proof -
  have h: "failure (run_import env1 (request [TELEMETRY])) = None"
    by (simp add: run_import_env1 failure_def)
  have "readAsText_result env1 = Inr ''{1}''"
    and "JSON_parse env1 ''{1}'' = Some (json_of_manifest values1 manifest1)"
    by (simp_all add: env1_def)
  then show ?thesis
    using h complete_snapshot_is_stale [OF h] by (simp add: run_import_env1 emitted_def)
qed

text \<open>
  C4, as stated, fails: the first snapshot of an import of telemetry, \<open>EXTRACTING\<close>, has
  an empty per-type map.
\<close>

theorem snapshot_keys_counterexample:
  "hd (emitted (run_import env1 (request [TELEMETRY])))
     = (\<lparr>task = ''EXTRACTING'', progress = 0, filePath = Some ''in.zip''\<rparr>, [])
   \<and> set (map fst (snd (hd (emitted (run_import env1 (request [TELEMETRY]))))))
       \<noteq> set (map type_f (objects (request [TELEMETRY])))"
proof -
  have "hd (emitted (run_import env1 (request [TELEMETRY])))
     = (\<lparr>task = ''EXTRACTING'', progress = 0, filePath = Some ''in.zip''\<rparr>, [])"
    by (simp add: run_import_env1 emitted_def)
  moreover have "map type_f (objects (request [TELEMETRY])) = [TELEMETRY]"
    by (simp add: request_def)
  ultimately show ?thesis by simp
qed

text \<open>
  C4, amended: every snapshot that \<open>export\<close> emits, and every snapshot that \<open>import\<close>
  emits other than \<open>EXTRACTING\<close>, has a per-type map whose keys are the requested types,
  each once; the map of an \<open>EXTRACTING\<close> snapshot is empty.
\<close>

theorem snapshot_keys:
  "(\<forall>p \<in> set (emitted (run_export env req)).
      distinct (map fst (progress p)) \<and> set (map fst (progress p)) = set (map type_f (objects req)))
   \<and> (\<forall>x \<in> set (emitted (run_import env req)).
        if task (fst x) = ''EXTRACTING'' then snd x = []
        else distinct (map fst (snd x)) \<and> set (map fst (snd x)) = set (map type_f (objects req)))"
  using export_seen_keys [of _ env req] import_seen_keys [of _ env req] by blast

theorem snapshot_keys_witness:
  "\<lparr>task = ''COMPLETE'', progress = [(TELEMETRY, \<lparr>task_e = ''EXPORTED'', completed = [item1]\<rparr>)],
      filePath = Some ''cache/archive-t2.zip''\<rparr> \<in> set (emitted (run_export env1 (request [TELEMETRY])))
   \<and> (\<lparr>task = ''IMPORTING'', progress = 1, filePath = None\<rparr>,
        [(TELEMETRY, \<lparr>task_i = ''IMPORTED'', pending = []\<rparr>)]) \<in> set (emitted (run_import env1 (request [TELEMETRY])))
   \<and> set (map type_f (objects (request [TELEMETRY]))) = {TELEMETRY}"
proof -
  have ex: "\<lparr>task = ''COMPLETE'', progress = [(TELEMETRY, \<lparr>task_e = ''EXPORTED'', completed = [item1]\<rparr>)],
      filePath = Some ''cache/archive-t2.zip''\<rparr> \<in> set (emitted (run_export env1 (request [TELEMETRY])))"
    by (simp add: run_export_env1 emitted_def)
  have im: "(\<lparr>task = ''IMPORTING'', progress = 1, filePath = None\<rparr>,
        [(TELEMETRY, \<lparr>task_i = ''IMPORTED'', pending = []\<rparr>)]) \<in> set (emitted (run_import env1 (request [TELEMETRY])))"
    by (simp add: run_import_env1 emitted_def)
  have "\<forall>p \<in> set (emitted (run_export env1 (request [TELEMETRY]))).
      distinct (map fst (progress p)) \<and> set (map fst (progress p)) = set (map type_f (objects (request [TELEMETRY])))"
    using snapshot_keys [of env1 "request [TELEMETRY]"] by (rule conjunct1)
  from bspec [OF this ex]
  have "set (map type_f (objects (request [TELEMETRY]))) = {TELEMETRY}" by simp
  with ex im show ?thesis by simp
qed

text \<open>
  C6: a successful \<open>export\<close> ends with the \<open>COMPLETE\<close> snapshot and has written
  \<open>manifest.json\<close> in the workspace. The manifest written has the fixed id and version,
  its \<open>count\<close> is the length of its \<open>items\<close>, and its \<open>items\<close> are the completed
  items of the entries of the per-type map, entry after entry, in the order of each entry;
  the map has one entry for each requested type.
\<close>

theorem manifest_written:
  assumes "failure (run_export env req) = None"
  shows "\<exists>c. buildContext_result env = Inr c \<and>
     (let entries = progress (last (emitted (run_export env req)));
          m = manifest env (pdata c) entries
      in task (last (emitted (run_export env req))) = ''COMPLETE''
       \<and> WriteFile (workspace env) ''manifest.json'' (JSON_stringify env m) \<in> set (calls (run_export env req))
       \<and> id_f m = ''sunbird.data.archive'' \<and> ver m = ''1.0''
       \<and> count (archive m) = length (items (archive m))
       \<and> items (archive m) = concat (map (completed \<circ> snd) entries)
       \<and> distinct (map fst entries)
       \<and> set (map fst entries) = set (map type_f (objects req)))"
proof -
  from assms obtain c where
    ctx: "buildContext_result env = Inr c"
    and all: "list_all (\<lambda>object. type_f object = TELEMETRY) (objects req)"
    and some: "building env req \<noteq> []"
    and run: "run_export env req =
       ((building env req
          @ [\<lparr>task = ''BUILDING_MANIFEST'', progress = progress (last (building env req)), filePath = None\<rparr>,
             (last (building env req))\<lparr>task := ''COMPLETE'', filePath := Some (zipFile env)\<rparr>],
         None),
        call (Zip (workspace env) (zipFile env))
          (call (WriteFile (workspace env) ''manifest.json''
             (JSON_stringify env (manifest env (pdata c) (progress (last (building env req))))))
             (call BuildContext (built env req))))"
    by (rule run_export_succeeds)
  let ?entries = "progress (last (building env req))"
  have keys: "distinct (map fst ?entries) \<and> set (map fst ?entries) = set (map type_f (objects req))"
    using building_keys [OF all, of "last (building env req)" env] some by simp
  have "progress (last (emitted (run_export env req))) = ?entries"
    and "task (last (emitted (run_export env req))) = ''COMPLETE''"
    and "WriteFile (workspace env) ''manifest.json'' (JSON_stringify env (manifest env (pdata c) ?entries))
           \<in> set (calls (run_export env req))"
    by (simp_all add: run emitted_def calls_def call_def)
  moreover have "id_f (manifest env (pdata c) ?entries) = ''sunbird.data.archive''"
    and "ver (manifest env (pdata c) ?entries) = ''1.0''"
    and "count (archive (manifest env (pdata c) ?entries)) = length (items (archive (manifest env (pdata c) ?entries)))"
    and "items (archive (manifest env (pdata c) ?entries)) = concat (map (completed \<circ> snd) ?entries)"
    by (simp_all add: manifest_def ARCHIVE_ID_def ARCHIVE_VERSION_def flattenedItems_concat)
  ultimately show ?thesis using ctx keys by (simp add: Let_def del: set_map)
qed

theorem manifest_written_witness:
  "failure (run_export env1 (request [TELEMETRY])) = None
   \<and> buildContext_result env1 = Inr \<lparr>pdata = ''app''\<rparr>
   \<and> manifest env1 ''app'' (progress (last (emitted (run_export env1 (request [TELEMETRY]))))) = manifest1
   \<and> WriteFile ''cache/w1'' ''manifest.json'' (JSON_stringify env1 manifest1)
        \<in> set (calls (run_export env1 (request [TELEMETRY])))"
proof -
  have h: "failure (run_export env1 (request [TELEMETRY])) = None"
    by (simp add: run_export_env1 failure_def)
  have ctx: "buildContext_result env1 = Inr \<lparr>pdata = ''app''\<rparr>" by (simp add: env1_def)
  have m: "manifest env1 ''app'' (progress (last (emitted (run_export env1 (request [TELEMETRY]))))) = manifest1"
    by (simp add: run_export_env1 emitted_def manifest_def flattenedItems_def manifest1_def
          ARCHIVE_ID_def ARCHIVE_VERSION_def) (simp add: env1_def)
  have w: "workspace env1 = ''cache/w1''" by (simp add: workspace_def env1_def)
  from manifest_written [OF h] ctx m w show ?thesis using h by (auto simp: Let_def)
qed

text \<open>
  C2, as stated, fails: an export of telemetry and content fails with the plain
  \<open>Error('To be implemented')\<close>, thrown while the list of sources is built: \<open>export\<close>
  of the telemetry delegate has been called, but the stream it returned is not subscribed,
  since \<open>combineLatest\<close> is not reached. An export of profiles fails with the same error,
  which names no type.
\<close>

theorem unsupported_type_counterexample:
  "failure (run_export env1 (request [TELEMETRY, CONTENT])) = Some (Error ''To be implemented'')
   \<and> calls (run_export env1 (request [TELEMETRY, CONTENT]))
       = [CreateDir ''cache/w1'', TelemetryExport ''in.zip'' ''cache/w1'']
   \<and> failure (run_export env1 (request [PROFILE])) = Some (Error ''To be implemented'')"
  by (simp add: eval_defs env1_def request_def)

text \<open>
  C2, amended: a request that includes \<open>CONTENT\<close> or \<open>PROFILE\<close> never succeeds, in
  \<open>export\<close> or in \<open>import\<close>. When the steps before the delegates succeed (for
  \<open>export\<close>, \<open>createDir\<close>; for \<open>import\<close>, everything up to the \<open>VALIDATING\<close>
  snapshot, and \<open>createDir\<close>), the stream ends with the plain
  \<open>Error('To be implemented')\<close>, the same for both types. By then the method of the
  telemetry delegate has been called once for each telemetry object that comes before the
  first object without a delegate, and nothing more: no stream of a delegate is subscribed.
\<close>

theorem unsupported_type:
  assumes "CONTENT \<in> set (map type_f (objects req)) \<or> PROFILE \<in> set (map type_f (objects req))"
  shows "failure (run_export env req) \<noteq> None \<and> failure (run_import env req) \<noteq> None
    \<and> (createDir_result env = Inr () \<longrightarrow>
          failure (run_export env req) = Some (Error ''To be implemented'')
        \<and> emitted (run_export env req) = []
        \<and> calls (run_export env req) =
             CreateDir (workspace env)
             # map (\<lambda>_. TelemetryExport (filePath_r req) (workspace env))
                 (takeWhile (\<lambda>object. type_f object = TELEMETRY) (objects req)))
    \<and> (createDir_result env = Inr ()
        \<and> ''VALIDATING'' \<in> set (map (task \<circ> fst) (emitted (run_import env req))) \<longrightarrow>
          failure (run_import env req) = Some (Error ''To be implemented'')
        \<and> map (task \<circ> fst) (emitted (run_import env req)) = [''EXTRACTING'', ''VALIDATING'']
        \<and> (\<exists>its. calls (run_import env req) =
               [CreateDir (workspace env), Unzip (Some (filePath_r req)) (workspace env),
                ReadAsText (workspace env) ''manifest.json'']
               @ map (\<lambda>_. TelemetryImport (filePath_r req) (workspace env) its)
                   (takeWhile (\<lambda>object. type_f object = TELEMETRY) (objects req))))"
proof -
  have "failure (run_export env req) \<noteq> None"
    by (simp add: export_unsupported [OF assms] failure_def split: sum.splits)
  moreover have "failure (run_import env req) \<noteq> None"
    by (rule import_unsupported_fails [OF assms])
  moreover have "failure (run_export env req) = Some (Error ''To be implemented'')
        \<and> emitted (run_export env req) = []
        \<and> calls (run_export env req) =
             CreateDir (workspace env)
             # map (\<lambda>_. TelemetryExport (filePath_r req) (workspace env))
                 (takeWhile (\<lambda>object. type_f object = TELEMETRY) (objects req))"
    if "createDir_result env = Inr ()"
    using that
    by (simp add: export_unsupported [OF assms] failure_def emitted_def calls_def dispatched_def
          export_calls_def)
  ultimately show ?thesis using import_unsupported_thrown [OF assms] by blast
qed

theorem unsupported_type_witness:
  "PROFILE \<in> set (map type_f (objects (request [TELEMETRY, PROFILE])))
   \<and> createDir_result (env1\<lparr>readAsText_result := Inr ''{2}''\<rparr>) = Inr ()
   \<and> ''VALIDATING'' \<in> set (map (task \<circ> fst)
         (emitted (run_import (env1\<lparr>readAsText_result := Inr ''{2}''\<rparr>) (request [TELEMETRY, PROFILE]))))
   \<and> failure (run_export (env1\<lparr>readAsText_result := Inr ''{2}''\<rparr>) (request [TELEMETRY, PROFILE]))
       = Some (Error ''To be implemented'')
   \<and> calls (run_export (env1\<lparr>readAsText_result := Inr ''{2}''\<rparr>) (request [TELEMETRY, PROFILE]))
       = [CreateDir ''cache/w1'', TelemetryExport ''in.zip'' ''cache/w1'']
   \<and> failure (run_import (env1\<lparr>readAsText_result := Inr ''{2}''\<rparr>) (request [TELEMETRY, PROFILE]))
       = Some (Error ''To be implemented'')
   \<and> map (task \<circ> fst)
         (emitted (run_import (env1\<lparr>readAsText_result := Inr ''{2}''\<rparr>) (request [TELEMETRY, PROFILE])))
       = [''EXTRACTING'', ''VALIDATING'']"
proof -
  let ?env = "env1\<lparr>readAsText_result := Inr ''{2}''\<rparr>"
  let ?req = "request [TELEMETRY, PROFILE]"
  have h1: "PROFILE \<in> set (map type_f (objects ?req))" by (simp add: request_def)
  have h2: "createDir_result ?env = Inr ()" by (simp add: env1_def)
  have h3: "''VALIDATING'' \<in> set (map (task \<circ> fst) (emitted (run_import ?env ?req)))"
    by (simp add: eval_defs env1_def request_def manifest2_def item1_def item2_def)
  have w: "workspace ?env = ''cache/w1''" and f: "filePath_r ?req = ''in.zip''"
    and o: "takeWhile (\<lambda>object. type_f object = TELEMETRY) (objects ?req) = [\<lparr>type_f = TELEMETRY\<rparr>]"
    by (simp_all add: workspace_def env1_def request_def)
  from unsupported_type [of ?req ?env] h1 h2 h3 w f o show ?thesis by simp
qed

text \<open>
  C1, on the code: in \<open>import\<close> the observable of \<open>createDir\<close> is the third argument of
  \<open>concat\<close>, after the extraction and the reading of the manifest. In a world where
  \<open>createDir\<close> fails (and everything else succeeds), \<open>import\<close> still unzips into the
  workspace, reads the manifest there and emits \<open>EXTRACTING\<close> and \<open>VALIDATING\<close> before
  it fails with the error of \<open>createDir\<close>; \<open>export\<close>, in the same world, stops at
  \<open>createDir\<close>.
\<close>

theorem import_createDir_awaited_last:
  "map (task \<circ> fst) (emitted (run_import (env1\<lparr>createDir_result := Inl (Rejected ''createDir'')\<rparr>) (request [TELEMETRY])))
     = [''EXTRACTING'', ''VALIDATING'']
   \<and> failure (run_import (env1\<lparr>createDir_result := Inl (Rejected ''createDir'')\<rparr>) (request [TELEMETRY]))
     = Some (Rejected ''createDir'')
   \<and> calls (run_import (env1\<lparr>createDir_result := Inl (Rejected ''createDir'')\<rparr>) (request [TELEMETRY]))
     = [CreateDir ''cache/w1'', Unzip (Some ''in.zip'') ''cache/w1'', ReadAsText ''cache/w1'' ''manifest.json'']
   \<and> emitted (run_export (env1\<lparr>createDir_result := Inl (Rejected ''createDir'')\<rparr>) (request [TELEMETRY])) = []
   \<and> calls (run_export (env1\<lparr>createDir_result := Inl (Rejected ''createDir'')\<rparr>) (request [TELEMETRY]))
     = [CreateDir ''cache/w1'']"
  by (simp add: eval_defs env1_def request_def manifest1_def item1_def)



end
